theory Spec2Isabelle
  imports Main "HOL-Library.AList" "HOL-Library.Sublist"
begin

section \<open>JavaScript and Node primitives used by the sources\<close>

text \<open>
  Strings are \<^typ>\<open>string\<close>. An optional argument that may be one value or an array
  (\<^verbatim>\<open>patterns?: string | string[]\<close>) is a three-way sum.
\<close>

datatype 'a arg = Undefined | Single 'a | Array "'a list"

definition startsWith :: "string \<Rightarrow> string \<Rightarrow> bool" where
  "startsWith s pre = (take (length pre) s = pre)"

fun includes_str :: "string \<Rightarrow> string \<Rightarrow> bool" where
  "includes_str [] sub = (sub = [])"
| "includes_str (c # cs) sub = (startsWith (c # cs) sub \<or> includes_str cs sub)"

text \<open>\<^verbatim>\<open>s.split(c)\<close> for a one-character separator: never empty, \<^verbatim>\<open>"".split(c)\<close> is \<^verbatim>\<open>[""]\<close>.\<close>

fun splitOn :: "char \<Rightarrow> string \<Rightarrow> string list" where
  "splitOn c [] = [[]]"
| "splitOn c (x # xs) =
     (if x = c then [] # splitOn c xs
      else (case splitOn c xs of [] \<Rightarrow> [[x]] | s # ss \<Rightarrow> (x # s) # ss))"

fun joinSlash :: "string list \<Rightarrow> string" where
  "joinSlash [] = []"
| "joinSlash [s] = s"
| "joinSlash (s # t # ss) = s @ ''/'' @ joinSlash (t # ss)"

text \<open>
  \<^verbatim>\<open>path.basename\<close> (POSIX): trailing slashes are dropped, then the part after the last
  slash is returned.
\<close>

definition basename :: "string \<Rightarrow> string" where
  "basename p =
     rev (takeWhile (\<lambda>c. c \<noteq> CHR ''/'') (dropWhile (\<lambda>c. c = CHR ''/'') (rev p)))"

text \<open>
  \<^verbatim>\<open>normalizeString(path, allowAboveRoot)\<close> of Node's path module, on the segments of
  the path: empty and \<^verbatim>\<open>.\<close> segments vanish; \<^verbatim>\<open>..\<close> removes the segment before it,
  and where there is none to remove it is kept (\<open>allowAboveRoot\<close>) or dropped.
\<close>

definition normalizeString :: "bool \<Rightarrow> string list \<Rightarrow> string list" where
  "normalizeString allowAboveRoot segs =
     foldl (\<lambda>res s. if s = [] \<or> s = ''.'' then res
                     else if s = ''..''
                     then (if res \<noteq> [] \<and> last res \<noteq> ''..'' then butlast res
                           else if allowAboveRoot then res @ [''..''] else res)
                     else res @ [s]) [] segs"

text \<open>\<^verbatim>\<open>path.normalize\<close> and \<^verbatim>\<open>path.join\<close> of two arguments (POSIX).\<close>

definition normalize :: "string \<Rightarrow> string" where
  "normalize p =
     (if p = [] then ''.''
      else
        (let isAbsolute = (hd p = CHR ''/'');
             trailingSeparator = (last p = CHR ''/'');
             q = joinSlash (normalizeString (\<not> isAbsolute) (splitOn CHR ''/'' p))
         in if q = []
            then (if isAbsolute then ''/'' else if trailingSeparator then ''./'' else ''.'')
            else (if isAbsolute then ''/'' else []) @ q @
                 (if trailingSeparator then ''/'' else [])))"

definition join2 :: "string \<Rightarrow> string \<Rightarrow> string" where
  "join2 a b =
     (case filter (\<lambda>s. s \<noteq> []) [a, b] of
        [] \<Rightarrow> ''.''
      | parts \<Rightarrow> normalize (joinSlash parts))"

text \<open>
  \<^verbatim>\<open>path.resolve(p)\<close> with one argument. The working directory \<open>cwd\<close> of the process is
  an absolute path and is passed explicitly.
\<close>

definition resolve :: "string \<Rightarrow> string \<Rightarrow> string" where
  "resolve cwd p =
     (let full = (if p = [] then cwd
                  else if hd p = CHR ''/'' then p
                  else cwd @ ''/'' @ p)
      in ''/'' @ joinSlash (normalizeString False (splitOn CHR ''/'' full)))"

section \<open>The minimatch library\<close>

text \<open>
  \<^verbatim>\<open>minimatch(file, pattern, {matchBase})\<close> is a third-party library. The sources
  below take it as a parameter \<open>mm file pattern matchBase\<close>, so that what is proved of
  them holds for any matcher. For concrete evaluation the following model covers the glob
  fragment the patterns of this repository are written in: literal characters, \<^verbatim>\<open>*\<close> and
  \<^verbatim>\<open>?\<close> inside a path segment, \<^verbatim>\<open>**\<close> as a whole segment, and the \<^verbatim>\<open>matchBase\<close>
  option; no braces, brackets, extglobs, negation or comments. As in the library with its
  default options, a segment starting with a dot is matched only by a pattern segment that
  starts with a dot, and never by \<^verbatim>\<open>**\<close>.
\<close>

type_synonym matcher = "string \<Rightarrow> string \<Rightarrow> bool \<Rightarrow> bool"

definition dotSegment :: "string \<Rightarrow> bool" where
  "dotSegment s = (s \<noteq> [] \<and> hd s = CHR ''.'')"

definition hasMagic :: "string \<Rightarrow> bool" where
  "hasMagic p = (CHR ''*'' \<in> set p \<or> CHR ''?'' \<in> set p)"

fun globChars :: "string \<Rightarrow> string \<Rightarrow> bool" where
  "globChars [] s = (s = [])"
| "globChars (p # ps) s =
     (if p = CHR ''*''
      then (globChars ps s \<or> (case s of [] \<Rightarrow> False | _ # t \<Rightarrow> globChars (p # ps) t))
      else (case s of [] \<Rightarrow> False | c # t \<Rightarrow> (p = CHR ''?'' \<or> p = c) \<and> globChars ps t))"

definition partMatch :: "string \<Rightarrow> string \<Rightarrow> bool" where
  "partMatch p f =
     (if hasMagic p
      then f \<noteq> [] \<and> f \<noteq> ''.'' \<and> f \<noteq> ''..'' \<and>
           (if dotSegment f then dotSegment p else True) \<and> globChars p f
      else f = p)"

text \<open>\<^verbatim>\<open>matchOne(file, pattern)\<close> on the segments of the file and of the pattern.\<close>

fun matchOne :: "string list \<Rightarrow> string list \<Rightarrow> bool" where
  "matchOne [] [] = True"
| "matchOne (f # fs) [] = (fs = [] \<and> f = [])"
| "matchOne [] (p # ps) = False"
| "matchOne (f # fs) (p # ps) =
     (if p = ''**''
      then (if ps = [] then \<not> list_ex dotSegment (f # fs)
            else (matchOne (f # fs) ps \<or> (\<not> dotSegment f \<and> matchOne fs (p # ps))))
      else (partMatch p f \<and> matchOne fs ps))"

text \<open>Splitting at runs of slashes, \<^verbatim>\<open>s.split(/\/+/)\<close>.\<close>

definition splitSlashes :: "string \<Rightarrow> string list" where
  "splitSlashes s =
     (case splitOn CHR ''/'' s of
        [] \<Rightarrow> []
      | x # rest \<Rightarrow>
          x # (if rest = [] then []
               else filter (\<lambda>seg. seg \<noteq> []) (butlast rest) @ [last rest]))"

definition lastNonEmpty :: "string list \<Rightarrow> string" where
  "lastNonEmpty segs = (case filter (\<lambda>seg. seg \<noteq> []) (rev segs) of [] \<Rightarrow> [] | x # _ \<Rightarrow> x)"

definition minimatch :: matcher where
  "minimatch file pattern matchBase =
     (if pattern = [] then file = []
      else
        (let ff = splitSlashes file;
             pat = splitSlashes pattern;
             file' = (if matchBase \<and> length pat = 1 then [lastNonEmpty ff] else ff)
         in matchOne file' pat))"

section \<open>utils.ts: filename patterns\<close>

text \<open>
  \<^verbatim>\<open>matchesPattern\<close>: a pattern containing \<^verbatim>\<open>**\<close> is matched against the absolute path
  with \<^verbatim>\<open>matchBase\<close>, any other pattern against the file name alone.
\<close>

definition matchesPattern :: "matcher \<Rightarrow> string \<Rightarrow> string \<Rightarrow> string \<Rightarrow> string \<Rightarrow> bool" where
  "matchesPattern mm filePath fileName absolutePath pattern =
     (if includes_str pattern ''**'' then mm absolutePath pattern True
      else mm fileName pattern False)"

text \<open>\<^verbatim>\<open>!patterns\<close> holds for \<^verbatim>\<open>undefined\<close> and for the empty string; an array is truthy.\<close>

fun falsyPatterns :: "string arg \<Rightarrow> bool" where
  "falsyPatterns Undefined = True"
| "falsyPatterns (Single s) = (s = [])"
| "falsyPatterns (Array ps) = False"

fun toList :: "'a arg \<Rightarrow> 'a list" where
  "toList Undefined = []"
| "toList (Single x) = [x]"
| "toList (Array xs) = xs"

definition matchesFilenamePattern :: "matcher \<Rightarrow> string \<Rightarrow> string \<Rightarrow> string arg \<Rightarrow> bool" where
  "matchesFilenamePattern mm cwd filePath patterns =
     (if falsyPatterns patterns then True
      else
        (let patternList = toList patterns;
             fileName = basename filePath;
             absolutePath = resolve cwd filePath;
             includePatterns = filter (\<lambda>p. \<not> startsWith p ''!'') patternList;
             excludePatterns = map (drop 1) (filter (\<lambda>p. startsWith p ''!'') patternList)
         in if excludePatterns \<noteq> [] \<and>
               list_ex (matchesPattern mm filePath fileName absolutePath) excludePatterns
            then False
            else if includePatterns \<noteq> []
            then list_ex (matchesPattern mm filePath fileName absolutePath) includePatterns
            else True))"

section \<open>types.ts\<close>

definition DEFAULT_FILENAME_PATTERNS :: "string list" where
  "DEFAULT_FILENAME_PATTERNS =
     [''**'', ''!package.json'', ''!bin/**'', ''!README.md'', ''!node_modules/**'']"

text \<open>
  Modelled from the spec: the consumer's choice of the filename patterns (consumer.ts is not
  among the sources). ``If no patterns are supplied at all for the consumer call, default
  patterns are used''; types.ts says of the constant: ``Default filename patterns applied
  when no filenamePatterns are specified''.
\<close>

definition consumerFilenamePatterns :: "string list option \<Rightarrow> string arg" where
  "consumerFilenamePatterns filenamePatterns =
     (case filenamePatterns of
        None \<Rightarrow> Array DEFAULT_FILENAME_PATTERNS
      | Some ps \<Rightarrow> Array ps)"

section \<open>utils.ts: content patterns and the directory walk\<close>

text \<open>
  A thrown JavaScript \<^verbatim>\<open>Error\<close> carries its message; a failing file-system call throws
  a system error with a code and the path.
\<close>

datatype error = Error string | SysError string string

text \<open>
  A \<^verbatim>\<open>RegExp\<close> object. \<open>regExpMatcher\<close> is the matcher compiled from its source: for a
  text and an index it gives the end of the match that starts at this index, if there is one.
  \<open>global\<close> and \<open>sticky\<close> are the flags \<^verbatim>\<open>g\<close> and \<^verbatim>\<open>y\<close>, and \<open>lastIndex\<close> is the
  property of that name, which \<^verbatim>\<open>test\<close> reads and writes when one of the two flags is set.
\<close>

record RegExp =
  regExpMatcher :: "string \<Rightarrow> nat \<Rightarrow> nat option"
  global :: bool
  sticky :: bool
  lastIndex :: nat

text \<open>
  \<^verbatim>\<open>RegExp.prototype.test\<close>, after \<^verbatim>\<open>RegExpBuiltinExec\<close> of the language standard. The
  search starts at \<open>lastIndex\<close> when the pattern is global or sticky and at 0 otherwise; a
  sticky pattern is tried at the start index only, any other at each index up to the length
  of the text. A global or sticky pattern is left with \<open>lastIndex\<close> at the end of the match,
  or at 0 when there is none. (The index advances by one character; the flag \<^verbatim>\<open>u\<close>, which
  advances by code points, is not modelled.)
\<close>

fun firstMatch :: "(string \<Rightarrow> nat \<Rightarrow> nat option) \<Rightarrow> string \<Rightarrow> nat list \<Rightarrow> nat option" where
  "firstMatch m S [] = None"
| "firstMatch m S (i # indices) =
     (case m S i of Some e \<Rightarrow> Some e | None \<Rightarrow> firstMatch m S indices)"

definition regExpBuiltinExec :: "RegExp \<Rightarrow> string \<Rightarrow> nat option \<times> RegExp" where
  "regExpBuiltinExec R S =
     (let useLast = (global R \<or> sticky R);
          start = (if useLast then lastIndex R else 0);
          found = (if sticky R
                   then (if start \<le> length S then regExpMatcher R S start else None)
                   else firstMatch (regExpMatcher R) S [start ..< Suc (length S)])
      in case found of
           None \<Rightarrow> (None, if useLast then R\<lparr>lastIndex := 0\<rparr> else R)
         | Some e \<Rightarrow> (Some e, if useLast then R\<lparr>lastIndex := e\<rparr> else R))"

definition test :: "RegExp \<Rightarrow> string \<Rightarrow> bool \<times> RegExp" where
  "test R S = (case regExpBuiltinExec R S of (found, R') \<Rightarrow> (found \<noteq> None, R'))"

text \<open>
  \<^verbatim>\<open>patternList.some((pattern) => pattern.test(content))\<close>: the patterns are tested in
  their order up to the first that matches; each pattern tested is left as its \<^verbatim>\<open>test\<close>
  leaves it. The elements of the array are taken to be distinct objects.
\<close>

fun someTest :: "RegExp list \<Rightarrow> string \<Rightarrow> bool \<times> RegExp list" where
  "someTest [] content = (False, [])"
| "someTest (pattern # patterns) content =
     (case test pattern content of
        (found, pattern') \<Rightarrow>
          if found then (True, pattern' # patterns)
          else (case someTest patterns content of
                  (found', patterns') \<Rightarrow> (found', pattern' # patterns')))"

text \<open>The argument that holds the objects of the pattern list.\<close>

fun ofList :: "'a arg \<Rightarrow> 'a list \<Rightarrow> 'a arg" where
  "ofList Undefined xs = Undefined"
| "ofList (Single x) xs = (case xs of [] \<Rightarrow> Single x | y # ys \<Rightarrow> Single y)"
| "ofList (Array ys) xs = Array xs"

definition unreadableWarning :: "string \<Rightarrow> string" where
  "unreadableWarning filePath =
     ''Warning: Could not read file '' @ filePath @ '' for content regex check. Skipping file.''"

text \<open>
  \<^verbatim>\<open>matchesContentRegex\<close>. \<open>readUtf8\<close> is the file system's read as text, \<open>None\<close>
  where \<^verbatim>\<open>fs.readFileSync(filePath, 'utf8')\<close> throws. The result is the value returned, the
  lines written by \<^verbatim>\<open>console.warn\<close>, and the pattern objects as the call leaves them.
\<close>

definition matchesContentRegex ::
  "(string \<Rightarrow> string option) \<Rightarrow> string \<Rightarrow> RegExp arg \<Rightarrow> bool \<times> string list \<times> RegExp arg" where
  "matchesContentRegex readUtf8 filePath patterns =
     (case patterns of
        Undefined \<Rightarrow> (True, [], patterns)
      | _ \<Rightarrow>
          (case readUtf8 filePath of
             None \<Rightarrow> (False, [unreadableWarning filePath], patterns)
           | Some content \<Rightarrow>
               (case someTest (toList patterns) content of
                  (found, patternList) \<Rightarrow> (found, [], ofList patterns patternList))))"

text \<open>
  The directory that \<^verbatim>\<open>findMatchingFiles\<close> walks is a finite tree: what
  \<^verbatim>\<open>readdirSync\<close> lists in each directory, in its order, with what \<^verbatim>\<open>statSync\<close> says of
  each entry. A regular file carries its text (\<open>None\<close> when it cannot be read); \<open>Broken\<close>
  is an entry on which \<^verbatim>\<open>statSync\<close> throws, such as a dangling symbolic link.
\<close>

datatype fsnode = File "string option" | Dir "(string \<times> fsnode) list" | Broken

text \<open>
  \<^verbatim>\<open>walkDir\<close>, the closure inside \<^verbatim>\<open>findMatchingFiles\<close>. The state is the \<^verbatim>\<open>results\<close>
  array, the console output so far, and the content patterns with their \<open>lastIndex\<close>,
  which one call of \<^verbatim>\<open>test\<close> hands to the next.
\<close>

fun walkDir ::
  "matcher \<Rightarrow> string \<Rightarrow> string arg \<Rightarrow> string \<Rightarrow> (string \<times> fsnode) list \<Rightarrow>
   string list \<times> string list \<times> RegExp arg \<Rightarrow> error + string list \<times> string list \<times> RegExp arg" where
  "walkDir mm cwd filenamePattern currentDir [] state = Inr state"
| "walkDir mm cwd filenamePattern currentDir ((file, node) # files) (results, console, contentRegex) =
     (let fullPath = join2 currentDir file
      in case node of
           Broken \<Rightarrow> Inl (SysError ''ENOENT'' fullPath)
         | Dir entries \<Rightarrow>
             if \<not> startsWith file ''.''
             then (case walkDir mm cwd filenamePattern fullPath entries
                          (results, console, contentRegex) of
                     Inl e \<Rightarrow> Inl e
                   | Inr state' \<Rightarrow> walkDir mm cwd filenamePattern currentDir files state')
             else walkDir mm cwd filenamePattern currentDir files (results, console, contentRegex)
         | File content \<Rightarrow>
             if matchesFilenamePattern mm cwd fullPath filenamePattern
             then (case matchesContentRegex (\<lambda>p. if p = fullPath then content else None)
                         fullPath contentRegex of
                     (ok, warnings, contentRegex') \<Rightarrow>
                       walkDir mm cwd filenamePattern currentDir files
                         (if ok then results @ [fullPath] else results, console @ warnings,
                          contentRegex'))
             else walkDir mm cwd filenamePattern currentDir files (results, console, contentRegex))"

text \<open>\<open>root\<close> is what the file system holds at \<open>dir\<close>.\<close>

definition findMatchingFiles ::
  "matcher \<Rightarrow> string \<Rightarrow> string \<Rightarrow> string arg \<Rightarrow> RegExp arg \<Rightarrow> fsnode \<Rightarrow>
   error + string list \<times> string list \<times> RegExp arg" where
  "findMatchingFiles mm cwd dir filenamePattern contentRegex root =
     (case root of
        Dir entries \<Rightarrow> walkDir mm cwd filenamePattern dir entries ([], [], contentRegex)
      | File content \<Rightarrow> Inl (SysError ''ENOTDIR'' dir)
      | Broken \<Rightarrow> Inl (SysError ''ENOENT'' dir))"

text \<open>
  The regular files of a tree, in the order of a depth-first walk: each with its path, the
  names of the directories between the root of the walk and the file, and its text.
\<close>

fun allFiles ::
  "string \<Rightarrow> string list \<Rightarrow> (string \<times> fsnode) list \<Rightarrow> (string \<times> string list \<times> string option) list" where
  "allFiles currentDir parents [] = []"
| "allFiles currentDir parents ((file, node) # files) =
     (case node of
        File content \<Rightarrow> [(join2 currentDir file, parents, content)]
      | Dir entries \<Rightarrow> allFiles (join2 currentDir file) (parents @ [file]) entries
      | Broken \<Rightarrow> []) @ allFiles currentDir parents files"

text \<open>A file is hidden when one of the directories above it has a name that starts with a dot.\<close>

definition hidden :: "string \<times> string list \<times> string option \<Rightarrow> bool" where
  "hidden f = list_ex (\<lambda>d. startsWith d ''.'') (fst (snd f))"

text \<open>
  The files that a walk reaches, by the recursion of \<^verbatim>\<open>walkDir\<close>; a walk meets no error
  when no entry outside the directories it skips is broken.
\<close>

fun visited :: "string \<Rightarrow> (string \<times> fsnode) list \<Rightarrow> (string \<times> string option) list" where
  "visited currentDir [] = []"
| "visited currentDir ((file, node) # files) =
     (case node of
        File content \<Rightarrow> [(join2 currentDir file, content)]
      | Dir entries \<Rightarrow>
          (if \<not> startsWith file ''.'' then visited (join2 currentDir file) entries else [])
      | Broken \<Rightarrow> []) @ visited currentDir files"

fun walkable :: "(string \<times> fsnode) list \<Rightarrow> bool" where
  "walkable [] = True"
| "walkable ((file, node) # files) =
     ((case node of
         File content \<Rightarrow> True
       | Dir entries \<Rightarrow> (if \<not> startsWith file ''.'' then walkable entries else True)
       | Broken \<Rightarrow> False) \<and> walkable files)"

text \<open>
  The filter of the specification, in its words: a file is included when it satisfies the
  filename rules and, if content patterns are given, at least one content pattern; an
  absent argument accepts every file in its dimension. A text matches a pattern when the
  pattern's \<^verbatim>\<open>test\<close> accepts it from \<open>lastIndex\<close> 0, as on a pattern not used before. The
  filter is compared with the walk below.
\<close>

definition matchesText :: "RegExp \<Rightarrow> string \<Rightarrow> bool" where
  "matchesText R S = fst (test (R\<lparr>lastIndex := 0\<rparr>) S)"

definition shouldInclude ::
  "matcher \<Rightarrow> string \<Rightarrow> string arg \<Rightarrow> RegExp arg \<Rightarrow> string \<times> string option \<Rightarrow> bool" where
  "shouldInclude mm cwd filenamePattern contentRegex candidate =
     ((case filenamePattern of
         Undefined \<Rightarrow> True
       | _ \<Rightarrow> matchesFilenamePattern mm cwd (fst candidate) filenamePattern) \<and>
      (case contentRegex of
         Undefined \<Rightarrow> True
       | _ \<Rightarrow>
           (case snd candidate of
              None \<Rightarrow> False
            | Some content \<Rightarrow> list_ex (\<lambda>pattern. matchesText pattern content) (toList contentRegex))))"

text \<open>
  A pattern whose source is a text without special characters, as \<^verbatim>\<open>/#/\<close> or \<^verbatim>\<open>/#/g\<close>:
  it matches at an index when the text continues with the source there.
\<close>

definition literalRegExp :: "string \<Rightarrow> bool \<Rightarrow> bool \<Rightarrow> RegExp" where
  "literalRegExp source g y =
     \<lparr>regExpMatcher = (\<lambda>S i. if take (length source) (drop i S) = source
                              then Some (i + length source) else None),
      global = g, sticky = y, lastIndex = 0\<rparr>"

section \<open>utils.ts: version constraints\<close>

text \<open>
  The values that \<^verbatim>\<open>major\<close>, \<^verbatim>\<open>minor\<close> and \<^verbatim>\<open>patch\<close> can hold: a number, \<^verbatim>\<open>NaN\<close>
  (from \<^verbatim>\<open>parseInt\<close> of a string with no leading digits) or \<^verbatim>\<open>undefined\<close> (a
  destructured position beyond the end of the array). Numbers are exact integers; the
  rounding of JavaScript numbers beyond 2^53 is not modelled. \<^verbatim>\<open>===\<close> and the ordering
  operators are those of JavaScript on these values: an ordering with \<^verbatim>\<open>NaN\<close> or
  \<^verbatim>\<open>undefined\<close> on either side is false.
\<close>

datatype jsnum = Num int | NaN | Undef

text \<open>
  \<^verbatim>\<open>Number.parseInt(s, 10)\<close>: leading white space (of ASCII), an optional sign, then the
  longest run of digits; \<^verbatim>\<open>NaN\<close> when there is no digit.
\<close>

definition isWhiteSpace :: "char \<Rightarrow> bool" where
  "isWhiteSpace c = (c \<in> set [CHR '' '', CHR 0x09, CHR 0x0A, CHR 0x0B, CHR 0x0C, CHR 0x0D])"

definition isDigit :: "char \<Rightarrow> bool" where
  "isDigit c = (c \<in> set ''0123456789'')"

definition decimal :: "string \<Rightarrow> int" where
  "decimal ds = foldl (\<lambda>n c. 10 * n + (of_char c - 48)) 0 ds"

definition parseInt :: "string \<Rightarrow> jsnum" where
  "parseInt s =
     (let t = dropWhile isWhiteSpace s;
          neg = (t \<noteq> [] \<and> hd t = CHR ''-'');
          u = (if t \<noteq> [] \<and> (hd t = CHR ''-'' \<or> hd t = CHR ''+'') then tl t else t);
          ds = takeWhile isDigit u
      in if ds = [] then NaN else Num (if neg then - decimal ds else decimal ds))"

text \<open>\<^verbatim>\<open>x || 0\<close> on a number or \<^verbatim>\<open>NaN\<close>.\<close>

definition orZero :: "jsnum \<Rightarrow> jsnum" where
  "orZero x = (case x of Num n \<Rightarrow> Num n | _ \<Rightarrow> Num 0)"

text \<open>Array destructuring: a position beyond the end is \<^verbatim>\<open>undefined\<close>.\<close>

definition element :: "jsnum list \<Rightarrow> nat \<Rightarrow> jsnum" where
  "element xs i = (if i < length xs then xs ! i else Undef)"

fun strictEq :: "jsnum \<Rightarrow> jsnum \<Rightarrow> bool" where
  "strictEq (Num a) (Num b) = (a = b)"
| "strictEq Undef Undef = True"
| "strictEq _ _ = False"

fun gt :: "jsnum \<Rightarrow> jsnum \<Rightarrow> bool" where
  "gt (Num a) (Num b) = (a > b)"
| "gt _ _ = False"

fun ge :: "jsnum \<Rightarrow> jsnum \<Rightarrow> bool" where
  "ge (Num a) (Num b) = (a \<ge> b)"
| "ge _ _ = False"

fun lt :: "jsnum \<Rightarrow> jsnum \<Rightarrow> bool" where
  "lt (Num a) (Num b) = (a < b)"
| "lt _ _ = False"

fun le :: "jsnum \<Rightarrow> jsnum \<Rightarrow> bool" where
  "le (Num a) (Num b) = (a \<le> b)"
| "le _ _ = False"

text \<open>
  The match of
  \<^verbatim>\<open>/^([<=>^~]*)([\d.]+)(?:-([\w.-]+))?(?:\+([\w.-]+))?$/\<close>
  against the constraint: the operator and version groups, when the whole string matches.
  The character classes of adjacent groups are disjoint, so the greedy match is the only one.
\<close>

definition isOpChar :: "char \<Rightarrow> bool" where
  "isOpChar c = (c \<in> set ''<=>^~'')"

definition isVersionChar :: "char \<Rightarrow> bool" where
  "isVersionChar c = (isDigit c \<or> c = CHR ''.'')"

definition isTagChar :: "char \<Rightarrow> bool" where
  "isTagChar c =
     (c \<in> set ''abcdefghijklmnopqrstuvwxyzABCDEFGHIJKLMNOPQRSTUVWXYZ0123456789_.-'')"

definition buildOk :: "string \<Rightarrow> bool" where
  "buildOk r = (r = [] \<or> (hd r = CHR ''+'' \<and> tl r \<noteq> [] \<and> list_all isTagChar (tl r)))"

definition matchConstraint :: "string \<Rightarrow> (string \<times> string) option" where
  "matchConstraint c =
     (let op = takeWhile isOpChar c;
          r1 = dropWhile isOpChar c;
          version = takeWhile isVersionChar r1;
          r2 = dropWhile isVersionChar r1
      in if version = [] then None
         else if r2 \<noteq> [] \<and> hd r2 = CHR ''-''
         then (if takeWhile isTagChar (tl r2) \<noteq> [] \<and> buildOk (dropWhile isTagChar (tl r2))
               then Some (op, version) else None)
         else if buildOk r2 then Some (op, version) else None)"

definition parseInstalled :: "string \<Rightarrow> jsnum \<times> jsnum \<times> jsnum" where
  "parseInstalled installedVersion =
     (let xs = map parseInt (splitOn CHR ''.'' installedVersion)
      in (element xs 0, element xs 1, element xs 2))"

definition parseVersion :: "string \<Rightarrow> jsnum \<times> jsnum \<times> jsnum" where
  "parseVersion version =
     (let xs = map (\<lambda>x. orZero (parseInt x)) (splitOn CHR ''.'' version)
      in (element xs 0, element xs 1, element xs 2))"

definition validateSemverMatch :: "string \<Rightarrow> string option \<Rightarrow> bool" where
  "validateSemverMatch installedVersion versionConstraint =
     (case versionConstraint of
        None \<Rightarrow> True
      | Some vc \<Rightarrow>
          if vc = [] then True
          else if installedVersion = vc then True
          else
            (case parseInstalled installedVersion of
               (major, minor, patch) \<Rightarrow>
                 (case matchConstraint vc of
                    None \<Rightarrow> False
                  | Some (op, version) \<Rightarrow>
                      (case parseVersion version of
                         (cMajor, cMinor, cPatch) \<Rightarrow>
                           if op = ''^''
                           then strictEq major cMajor \<and>
                                (gt minor cMinor \<or> (strictEq minor cMinor \<and> ge patch cPatch))
                           else if op = ''~''
                           then strictEq major cMajor \<and> strictEq minor cMinor \<and> ge patch cPatch
                           else if op = ''>=''
                           then gt major cMajor \<or>
                                (strictEq major cMajor \<and> gt minor cMinor) \<or>
                                (strictEq major cMajor \<and> strictEq minor cMinor \<and> ge patch cPatch)
                           else if op = ''>''
                           then gt major cMajor \<or>
                                (strictEq major cMajor \<and> gt minor cMinor) \<or>
                                (strictEq major cMajor \<and> strictEq minor cMinor \<and> gt patch cPatch)
                           else if op = ''<=''
                           then lt major cMajor \<or>
                                (strictEq major cMajor \<and> lt minor cMinor) \<or>
                                (strictEq major cMajor \<and> strictEq minor cMinor \<and> le patch cPatch)
                           else if op = ''<''
                           then lt major cMajor \<or>
                                (strictEq major cMajor \<and> lt minor cMinor) \<or>
                                (strictEq major cMajor \<and> strictEq minor cMinor \<and> lt patch cPatch)
                           else if op = ''='' \<or> op = []
                           then installedVersion = version
                           else False))))"

section \<open>utils.ts: files on disk\<close>

text \<open>
  \<^verbatim>\<open>path.dirname\<close> (POSIX): the scan from the end of the path skips trailing slashes,
  then the last segment, and cuts at the slash before it.
\<close>

definition dirname :: "string \<Rightarrow> string" where
  "dirname p =
     (if p = [] then ''.''
      else
        (let hasRoot = (hd p = CHR ''/'');
             r = dropWhile (\<lambda>c. c \<noteq> CHR ''/'') (dropWhile (\<lambda>c. c = CHR ''/'') (rev (tl p)));
             end = length r
         in if r = [] then (if hasRoot then ''/'' else ''.'')
            else if hasRoot \<and> end = 1 then ''//''
            else take end p))"

text \<open>
  The file system that \<^verbatim>\<open>ensureDir\<close>, \<^verbatim>\<open>writeJsonFile\<close> and \<^verbatim>\<open>readJsonFile\<close> work on:
  the directories that exist and the regular files with the bytes they hold (numbers below
  256). Paths are compared as strings (two spellings of one path are two paths). Permissions
  are not modelled.
\<close>

type_synonym byte = nat

record fsys =
  dirs :: "string set"
  files :: "string \<rightharpoonup> byte list"

definition existsSync :: "fsys \<Rightarrow> string \<Rightarrow> bool" where
  "existsSync fs p = (p \<in> dirs fs \<or> files fs p \<noteq> None)"

text \<open>
  \<^verbatim>\<open>fs.mkdirSync(dir, { recursive: true })\<close> creates the directory and every missing
  directory above it, and throws when one of them exists as a regular file.
\<close>

definition pathPrefixes :: "string \<Rightarrow> string list" where
  "pathPrefixes d =
     [take i d. i \<leftarrow> [1..<length d], d ! i = CHR ''/'' \<and> d ! (i - 1) \<noteq> CHR ''/''] @ [d]"

definition mkdirSync_recursive :: "fsys \<Rightarrow> string \<Rightarrow> error + fsys" where
  "mkdirSync_recursive fs dir =
     (if list_ex (\<lambda>p. files fs p \<noteq> None) (pathPrefixes dir)
      then Inl (SysError ''ENOTDIR'' dir)
      else Inr (fs\<lparr>dirs := dirs fs \<union> set (pathPrefixes dir)\<rparr>))"

definition ensureDir :: "fsys \<Rightarrow> string \<Rightarrow> error + fsys" where
  "ensureDir fs dir =
     (if \<not> existsSync fs dir then mkdirSync_recursive fs dir else Inr fs)"

text \<open>
  The bytes of a string in an encoding. A character of a string is a code point up to
  U+00FF (text beyond this range is outside the model). In UTF-8 a code point below U+0080
  is one byte, and one from U+0080 to U+00FF is two: \<^verbatim>\<open>110xxxxx 10xxxxxx\<close> with the upper
  bits in the first byte and the lower six in the second. In Latin-1 every code point of
  the range is one byte.
\<close>

datatype encoding = Utf8 | Latin1

definition utf8Bytes :: "char \<Rightarrow> byte list" where
  "utf8Bytes c =
     (let n = of_char c
      in if n < 128 then [n] else [192 + n div 64, 128 + n mod 64])"

fun encodeText :: "encoding \<Rightarrow> string \<Rightarrow> byte list" where
  "encodeText Utf8 s = concat (map utf8Bytes s)"
| "encodeText Latin1 s = map of_char s"

text \<open>
  \<^verbatim>\<open>fs.writeFileSync(path, data, encoding)\<close> stores the bytes of the string in the
  encoding; it throws on a directory and where the parent directory is missing.
  \<^verbatim>\<open>fs.readFileSync(path)\<close> returns the bytes of the file; it throws on a directory and on
  a missing file.
\<close>

definition writeFileSync :: "fsys \<Rightarrow> string \<Rightarrow> string \<Rightarrow> encoding \<Rightarrow> error + fsys" where
  "writeFileSync fs p data enc =
     (if p \<in> dirs fs then Inl (SysError ''EISDIR'' p)
      else if dirname p \<notin> dirs fs then Inl (SysError ''ENOENT'' p)
      else Inr (fs\<lparr>files := (files fs)(p \<mapsto> encodeText enc data)\<rparr>))"

definition readFileSync :: "fsys \<Rightarrow> string \<Rightarrow> error + byte list" where
  "readFileSync fs p =
     (case files fs p of
        Some buffer \<Rightarrow> Inr buffer
      | None \<Rightarrow> if p \<in> dirs fs then Inl (SysError ''EISDIR'' p) else Inl (SysError ''ENOENT'' p))"

text \<open>
  JSON values (numbers, which are IEEE doubles, are left out: marker records hold none). The
  pairs of an object are in the order of its properties. \<^verbatim>\<open>JSON.stringify(data, null, space)\<close>
  follows the serialisation of the language standard: each nesting level is indented by
  \<open>space\<close> blanks (at most ten), the properties are written in their order, strings are
  quoted and escaped.
\<close>

datatype json = JNull | JBool bool | JString string | JArray "json list" | JObject "(string \<times> json) list"

fun joinWith :: "string \<Rightarrow> string list \<Rightarrow> string" where
  "joinWith sep [] = []"
| "joinWith sep [s] = s"
| "joinWith sep (s # t # ss) = s @ sep @ joinWith sep (t # ss)"

definition hexDigit :: "nat \<Rightarrow> char" where
  "hexDigit n = ''0123456789abcdef'' ! (n mod 16)"

definition quoteChar :: "char \<Rightarrow> string" where
  "quoteChar c =
     (if c = CHR 0x22 then [CHR 0x5C, CHR 0x22]
      else if c = CHR 0x5C then [CHR 0x5C, CHR 0x5C]
      else if c = CHR 0x08 then [CHR 0x5C, CHR ''b'']
      else if c = CHR 0x0C then [CHR 0x5C, CHR ''f'']
      else if c = CHR 0x0A then [CHR 0x5C, CHR ''n'']
      else if c = CHR 0x0D then [CHR 0x5C, CHR ''r'']
      else if c = CHR 0x09 then [CHR 0x5C, CHR ''t'']
      else if (of_char c :: nat) < 32
      then [CHR 0x5C, CHR ''u'', CHR ''0'', CHR ''0'', hexDigit (of_char c div 16), hexDigit (of_char c)]
      else [c])"

definition quoteJSONString :: "string \<Rightarrow> string" where
  "quoteJSONString s = [CHR 0x22] @ concat (map quoteChar s) @ [CHR 0x22]"

fun serialize :: "nat \<Rightarrow> string \<Rightarrow> json \<Rightarrow> string" where
  "serialize gap indent JNull = ''null''"
| "serialize gap indent (JBool b) = (if b then ''true'' else ''false'')"
| "serialize gap indent (JString s) = quoteJSONString s"
| "serialize gap indent (JArray xs) =
     (if xs = [] then ''[]''
      else
        (let stepback = indent;
             ind = indent @ replicate gap CHR '' '';
             partial = map (serialize gap ind) xs
         in if gap = 0 then ''['' @ joinWith '','' partial @ '']''
            else ''['' @ [CHR 0x0A] @ ind @ joinWith ('','' @ [CHR 0x0A] @ ind) partial @
                 [CHR 0x0A] @ stepback @ '']''))"
| "serialize gap indent (JObject kvs) =
     (if kvs = [] then ''{}''
      else
        (let stepback = indent;
             ind = indent @ replicate gap CHR '' '';
             partial = map (\<lambda>kv. quoteJSONString (fst kv) @ (if gap = 0 then '':'' else '': '') @
                                  serialize gap ind (snd kv)) kvs
         in if gap = 0 then ''{'' @ joinWith '','' partial @ ''}''
            else ''{'' @ [CHR 0x0A] @ ind @ joinWith ('','' @ [CHR 0x0A] @ ind) partial @
                 [CHR 0x0A] @ stepback @ ''}''))"

definition JSON_stringify :: "json \<Rightarrow> nat \<Rightarrow> string" where
  "JSON_stringify data space = serialize (min space 10) [] data"


text \<open>\<^verbatim>\<open>String(error)\<close> of a thrown value (the wording of Node's messages is abridged).\<close>

fun errorString :: "error \<Rightarrow> string" where
  "errorString (Error msg) = ''Error: '' @ msg"
| "errorString (SysError code p) = ''Error: '' @ code @ '', '' @ p"

text \<open>
  \<^verbatim>\<open>readJsonFile\<close> and \<^verbatim>\<open>writeJsonFile\<close>. \<open>parse\<close> is \<^verbatim>\<open>JSON.parse\<close> of the text
  that \<^verbatim>\<open>toString()\<close> makes of the bytes read, a parameter: it returns the value, or the
  text of the \<^verbatim>\<open>SyntaxError\<close> it throws. The \<^verbatim>\<open>data\<close> written, of type \<^verbatim>\<open>unknown\<close> in
  the source, is a JSON value.
\<close>

definition readJsonFile :: "(byte list \<Rightarrow> string + 'a) \<Rightarrow> fsys \<Rightarrow> string \<Rightarrow> error + 'a" where
  "readJsonFile parse fs filePath =
     (case readFileSync fs filePath of
        Inl e \<Rightarrow> Inl (Error (''Failed to read JSON file '' @ filePath @ '': '' @ errorString e))
      | Inr content \<Rightarrow>
          (case parse content of
             Inl msg \<Rightarrow> Inl (Error (''Failed to read JSON file '' @ filePath @ '': '' @ msg))
           | Inr v \<Rightarrow> Inr v))"

definition writeJsonFile :: "fsys \<Rightarrow> string \<Rightarrow> json \<Rightarrow> error + fsys" where
  "writeJsonFile fs filePath data =
     (case ensureDir fs (dirname filePath) of
        Inl e \<Rightarrow> Inl e
      | Inr fs' \<Rightarrow> writeFileSync fs' filePath (JSON_stringify data 2 @ [CHR 0x0A]) Utf8)"

text \<open>
  Modelled from the spec: \<^verbatim>\<open>load\<close> of the MarkerStore (consumer.ts is not among the
  sources). ``Reads and parses the marker at \<open>dir\<close>; fails with CorruptMarker if present
  but not valid structured data; returns an empty record if absent.'' The marker file is
  \<^verbatim>\<open>.folder-publisher\<close>, an object with the one property \<^verbatim>\<open>managedFiles\<close>; reading and
  parsing are \<^verbatim>\<open>readJsonFile\<close> of utils.ts.
\<close>

definition markerPath :: "string \<Rightarrow> string" where
  "markerPath dir = join2 dir ''.folder-publisher''"

definition emptyMarker :: json where
  "emptyMarker = JObject [(''managedFiles'', JArray [])]"

definition loadMarker :: "(byte list \<Rightarrow> string + json) \<Rightarrow> fsys \<Rightarrow> string \<Rightarrow> error + json" where
  "loadMarker parse fs dir =
     (if existsSync fs (markerPath dir) then readJsonFile parse fs (markerPath dir)
      else Inr emptyMarker)"

section \<open>The synchronisation engine, from the specification\<close>

text \<open>
  consumer.ts, which holds \<^verbatim>\<open>extract\<close> and \<^verbatim>\<open>check\<close>, is not among the sources; its tests
  and the types of its arguments and results are. The definitions of this section follow
  sections 3, 4 and 6 of the specification. A path is the list of its segments: the
  destination of a candidate file is the output directory followed by the file's path in
  the package, and its marker is the one of the directory above it. The content hash is a
  parameter \<open>digest\<close>. The \<^verbatim>\<open>gitignore\<close> option and the progress events are left out, and
  copying and deleting cannot fail.
\<close>

text \<open>
  types.ts: \<^verbatim>\<open>ManagedFileMetadata\<close>. \<open>path\<close> is ``relative to marker file directory'',
  here the file's name in that directory; the optional \<open>force\<close> is false when absent.
\<close>

record ManagedFileMetadata =
  path :: string
  packageName :: string
  packageVersion :: string
  force :: bool

text \<open>
  Modelled from the spec: the marker file of a directory (section 3, ``an ordered list of
  ManagedFileMetadata entries''), which may also be unreadable as a record (CorruptMarker,
  section 7).
\<close>

datatype markerFile = Corrupt | Marker "ManagedFileMetadata list"

text \<open>
  Modelled from the spec: the output tree that the engine reads and writes: the content of
  each file, the files made read-only (step 6 of section 4.3), and the marker file of each
  directory that has one, in the order of their creation.
\<close>

record tree =
  disk :: "string list \<rightharpoonup> string"
  readOnly :: "string list set"
  markers :: "(string list \<times> markerFile) list"

text \<open>Modelled from the spec: the error taxonomy of section 7 (without IoFailure).\<close>

datatype syncError =
    PackageNotInstalled string
  | FileConflict "string list" "string option"
  | CorruptMarker "string list"

text \<open>
  Modelled from the spec: \<open>load\<close> of the MarkerStore (section 4.1), on the output tree:
  ``fails with CorruptMarker if present but not valid structured data; returns an empty
  record if absent''.
\<close>

definition load :: "tree \<Rightarrow> string list \<Rightarrow> syncError + ManagedFileMetadata list" where
  "load t dir =
     (case map_of (markers t) dir of
        None \<Rightarrow> Inr []
      | Some Corrupt \<Rightarrow> Inl (CorruptMarker dir)
      | Some (Marker entries) \<Rightarrow> Inr entries)"

text \<open>Modelled from the spec: \<open>save\<close> of the MarkerStore, ``save(dir, record)''.\<close>

definition save :: "tree \<Rightarrow> string list \<Rightarrow> ManagedFileMetadata list \<Rightarrow> tree" where
  "save t dir entries = t\<lparr>markers := AList.update dir (Marker entries) (markers t)\<rparr>"

text \<open>
  Modelled from the spec: \<open>upsert\<close> of the MarkerStore: ``replaces any existing entry with
  the same (path, packageName), else appends; preserves insertion order of unrelated
  entries''.
\<close>

definition sameKey :: "ManagedFileMetadata \<Rightarrow> ManagedFileMetadata \<Rightarrow> bool" where
  "sameKey a b = (path a = path b \<and> packageName a = packageName b)"

definition upsert :: "ManagedFileMetadata list \<Rightarrow> ManagedFileMetadata \<Rightarrow> ManagedFileMetadata list" where
  "upsert entries entry =
     (if list_ex (sameKey entry) entries
      then map (\<lambda>e. if sameKey entry e then entry else e) entries
      else entries @ [entry])"

text \<open>
  Modelled from the spec: \<open>isManaged\<close> of the MarkerStore: ``true iff an entry for that
  path exists, optionally scoped to a package''.
\<close>

definition isManaged :: "ManagedFileMetadata list \<Rightarrow> string \<Rightarrow> string option \<Rightarrow> bool" where
  "isManaged entries relativePath package =
     list_ex (\<lambda>e. path e = relativePath \<and>
                  (case package of None \<Rightarrow> True | Some n \<Rightarrow> packageName e = n)) entries"

text \<open>
  Modelled from the spec: what the package resolution boundary delivers (section 6): the
  installed package's name and version, and the files of its source tree with their content.
\<close>

record package =
  pkgName :: string
  pkgVersion :: string
  sourceFiles :: "(string list \<times> string) list"

text \<open>
  Modelled from the spec: the behaviour options of \<^verbatim>\<open>extract\<close> (section 4.3) and the
  filter boundary, ``shouldInclude(path) -> bool'' (section 6), here \<open>shouldAccept\<close> on the
  file's path in the package.
\<close>

record options =
  allowConflicts :: bool
  dryRun :: bool
  shouldAccept :: "string list \<Rightarrow> bool"

text \<open>
  Modelled from the spec: the candidate files (section 3): the files of the package that
  the filter accepts.
\<close>

definition candidateFiles :: "options \<Rightarrow> package \<Rightarrow> (string list \<times> string) list" where
  "candidateFiles opts pkg = filter (\<lambda>f. shouldAccept opts (fst f)) (sourceFiles pkg)"

text \<open>
  types.ts: the four lists of \<^verbatim>\<open>ConsumerResult\<close>, which are also the \<^verbatim>\<open>changes\<close> of each
  of its \<^verbatim>\<open>sourcePackages\<close>. The paths listed are destination paths.
\<close>

record changes =
  added :: "string list list"
  modified :: "string list list"
  deleted :: "string list list"
  skipped :: "string list list"

definition noChanges :: changes where
  "noChanges = \<lparr>added = [], modified = [], deleted = [], skipped = []\<rparr>"

text \<open>
  Modelled from the spec: the path of a destination relative to its directory (section 3),
  and the owning package named by a FileConflict ``if known'' (step 5 of section 4.3).
\<close>

definition entryName :: "string list \<Rightarrow> string" where
  "entryName destPath = (if destPath = [] then [] else last destPath)"

definition owner :: "ManagedFileMetadata list \<Rightarrow> string \<Rightarrow> string option" where
  "owner entries relativePath =
     (case filter (\<lambda>e. path e = relativePath) entries of
        [] \<Rightarrow> None
      | e # _ \<Rightarrow> Some (packageName e))"

text \<open>
  Modelled from the spec: step 6 of section 4.3, for a file classified add or update when
  the run is not a dry run: ``copy bytes from source to destination, then set the
  destination file mode to read-only; update the marker entry at destDir''.
\<close>

definition writeManaged ::
  "package \<Rightarrow> string list \<Rightarrow> string \<Rightarrow> ManagedFileMetadata list \<Rightarrow> bool \<Rightarrow> tree \<Rightarrow> tree" where
  "writeManaged pkg destPath content entries forced t =
     save (t\<lparr>disk := (disk t)(destPath \<mapsto> content), readOnly := insert destPath (readOnly t)\<rparr>)
       (butlast destPath)
       (upsert entries
          \<lparr>path = entryName destPath, packageName = pkgName pkg,
           packageVersion = pkgVersion pkg, force = forced\<rparr>)"

text \<open>
  Modelled from the spec: steps 1 to 5 and 8 of section 4.3 for one candidate file. The
  result is the error thrown or the lists of changes so far, with the tree as the step
  leaves it.
\<close>

definition processFile ::
  "(string \<Rightarrow> string) \<Rightarrow> options \<Rightarrow> package \<Rightarrow> string list \<Rightarrow> string list \<times> string \<Rightarrow>
   changes \<Rightarrow> tree \<Rightarrow> (syncError + changes) \<times> tree" where
  "processFile digest opts pkg outputDir file ch t =
     (let destPath = outputDir @ fst file;
          destDir = butlast destPath
      in case load t destDir of
           Inl e \<Rightarrow> (Inl e, t)
         | Inr entries \<Rightarrow>
             (case disk t destPath of
                None \<Rightarrow>
                  (Inr (ch\<lparr>added := added ch @ [destPath]\<rparr>),
                   if dryRun opts then t else writeManaged pkg destPath (snd file) entries False t)
              | Some existing \<Rightarrow>
                  if isManaged entries (entryName destPath) (Some (pkgName pkg))
                  then (if digest existing \<noteq> digest (snd file)
                        then (Inr (ch\<lparr>modified := modified ch @ [destPath]\<rparr>),
                              if dryRun opts then t
                              else writeManaged pkg destPath (snd file) entries False t)
                        else (Inr (ch\<lparr>skipped := skipped ch @ [destPath]\<rparr>), t))
                  else if \<not> allowConflicts opts
                  then (Inl (FileConflict destPath (owner entries (entryName destPath))), t)
                  else (Inr (ch\<lparr>added := added ch @ [destPath]\<rparr>),
                        if dryRun opts then t
                        else writeManaged pkg destPath (snd file) entries True t)))"

text \<open>
  Modelled from the spec: the walk over the candidate files, in their order; it stops at
  the first error (``fails fast on first conflict'').
\<close>

fun walk ::
  "(string \<Rightarrow> string) \<Rightarrow> options \<Rightarrow> package \<Rightarrow> string list \<Rightarrow> (string list \<times> string) list \<Rightarrow>
   changes \<Rightarrow> tree \<Rightarrow> (syncError + changes) \<times> tree" where
  "walk digest opts pkg outputDir [] ch t = (Inr ch, t)"
| "walk digest opts pkg outputDir (file # rest) ch t =
     (case processFile digest opts pkg outputDir file ch t of
        (Inl e, t') \<Rightarrow> (Inl e, t')
      | (Inr ch', t') \<Rightarrow> walk digest opts pkg outputDir rest ch' t')"

text \<open>
  Modelled from the spec: the orphan cleanup of section 4.3. ``\<open>deleted\<close> is populated only
  when a previously-managed path for this package is no longer present among this run's
  candidate files: such paths are removed from disk (subject to dry-run) and their marker
  entries dropped.'' The markers looked at are those of the output directory and below.
\<close>

definition isOrphan :: "package \<Rightarrow> string list list \<Rightarrow> string list \<Rightarrow> ManagedFileMetadata \<Rightarrow> bool" where
  "isOrphan pkg destPaths dir e = (packageName e = pkgName pkg \<and> dir @ [path e] \<notin> set destPaths)"

definition removeFiles :: "string list list \<Rightarrow> tree \<Rightarrow> tree" where
  "removeFiles gone t =
     t\<lparr>disk := (\<lambda>p. if p \<in> set gone then None else disk t p),
       readOnly := readOnly t - set gone\<rparr>"

fun cleanup ::
  "options \<Rightarrow> package \<Rightarrow> string list \<Rightarrow> string list list \<Rightarrow> string list list \<Rightarrow>
   changes \<Rightarrow> tree \<Rightarrow> (syncError + changes) \<times> tree" where
  "cleanup opts pkg outputDir destPaths [] ch t = (Inr ch, t)"
| "cleanup opts pkg outputDir destPaths (dir # rest) ch t =
     (if \<not> prefix outputDir dir then cleanup opts pkg outputDir destPaths rest ch t
      else
        (case load t dir of
           Inl e \<Rightarrow> (Inl e, t)
         | Inr entries \<Rightarrow>
             (let orphans = filter (isOrphan pkg destPaths dir) entries;
                  gone = map (\<lambda>e. dir @ [path e]) orphans
              in cleanup opts pkg outputDir destPaths rest
                   (ch\<lparr>deleted := deleted ch @ gone\<rparr>)
                   (if dryRun opts \<or> orphans = [] then t
                    else save (removeFiles gone t) dir
                           (filter (\<lambda>e. \<not> isOrphan pkg destPaths dir e) entries)))))"

text \<open>Modelled from the spec: \<^verbatim>\<open>extract\<close> for one package, section 4.3.\<close>

definition extractPackage ::
  "(string \<Rightarrow> string) \<Rightarrow> options \<Rightarrow> package \<Rightarrow> string list \<Rightarrow> tree \<Rightarrow>
   (syncError + changes) \<times> tree" where
  "extractPackage digest opts pkg outputDir t =
     (let candidates = candidateFiles opts pkg
      in case walk digest opts pkg outputDir candidates noChanges t of
           (Inl e, t') \<Rightarrow> (Inl e, t')
         | (Inr ch, t') \<Rightarrow>
             cleanup opts pkg outputDir (map (\<lambda>f. outputDir @ fst f) candidates)
               (remdups (map fst (markers t'))) ch t')"

text \<open>
  types.ts: the \<^verbatim>\<open>differences\<close> of a \<^verbatim>\<open>CheckResult\<close>; \<open>modifiedFiles\<close> stands for its
  property \<^verbatim>\<open>modified\<close>.
\<close>

record differences =
  missing :: "string list list"
  modifiedFiles :: "string list list"
  extra :: "string list list"

definition noDifferences :: differences where
  "noDifferences = \<lparr>missing = [], modifiedFiles = [], extra = []\<rparr>"

text \<open>
  Modelled from the spec: the DiffChecker of section 4.4, for one package. Each candidate
  path is classified against the tree and the marker of its directory: \<open>missing\<close> ``has a
  marker entry for this package but does not exist on disk'', \<open>modified\<close> ``exists, has a
  marker entry for this package, but its content hash differs'', \<open>extra\<close> ``has no marker
  entry for this package''; and ``\<open>ok\<close> is true iff \<open>missing\<close> and \<open>modified\<close> are both
  empty''.
\<close>

definition checkFile ::
  "(string \<Rightarrow> string) \<Rightarrow> package \<Rightarrow> string list \<Rightarrow> tree \<Rightarrow> string list \<times> string \<Rightarrow>
   differences \<Rightarrow> syncError + differences" where
  "checkFile digest pkg outputDir t file d =
     (let destPath = outputDir @ fst file
      in case load t (butlast destPath) of
           Inl e \<Rightarrow> Inl e
         | Inr entries \<Rightarrow>
             if \<not> isManaged entries (entryName destPath) (Some (pkgName pkg))
             then Inr (d\<lparr>extra := extra d @ [destPath]\<rparr>)
             else (case disk t destPath of
                     None \<Rightarrow> Inr (d\<lparr>missing := missing d @ [destPath]\<rparr>)
                   | Some existing \<Rightarrow>
                       if digest existing \<noteq> digest (snd file)
                       then Inr (d\<lparr>modifiedFiles := modifiedFiles d @ [destPath]\<rparr>)
                       else Inr d))"

fun checkFiles ::
  "(string \<Rightarrow> string) \<Rightarrow> package \<Rightarrow> string list \<Rightarrow> tree \<Rightarrow> (string list \<times> string) list \<Rightarrow>
   differences \<Rightarrow> syncError + differences" where
  "checkFiles digest pkg outputDir t [] d = Inr d"
| "checkFiles digest pkg outputDir t (file # rest) d =
     (case checkFile digest pkg outputDir t file d of
        Inl e \<Rightarrow> Inl e
      | Inr d' \<Rightarrow> checkFiles digest pkg outputDir t rest d')"

definition checkPackage ::
  "(string \<Rightarrow> string) \<Rightarrow> options \<Rightarrow> package \<Rightarrow> string list \<Rightarrow> tree \<Rightarrow> syncError + differences" where
  "checkPackage digest opts pkg outputDir t =
     checkFiles digest pkg outputDir t (candidateFiles opts pkg) noDifferences"

definition inSync :: "differences \<Rightarrow> bool" where
  "inSync d = (missing d = [] \<and> modifiedFiles d = [])"

text \<open>
  types.ts: \<^verbatim>\<open>ConsumerResult\<close>, the four lists and the changes of each package (name,
  version, changes), and \<^verbatim>\<open>CheckResult\<close>, where \<open>allDifferences\<close> stands for its property
  \<^verbatim>\<open>differences\<close> and \<open>checkedPackages\<close> for its \<^verbatim>\<open>sourcePackages\<close> (name, version, ok,
  differences).
\<close>

record ConsumerResult = changes +
  sourcePackages :: "(string \<times> string \<times> changes) list"

record CheckResult =
  ok :: bool
  allDifferences :: differences
  checkedPackages :: "(string \<times> string \<times> bool \<times> differences) list"

text \<open>
  Modelled from the spec: the ConsumerOrchestrator for \<^verbatim>\<open>extract\<close> (sections 4.3 and 6).
  The packages of the call are resolved by the external boundary \<open>installed\<close> (\<open>None\<close>:
  PackageNotInstalled) and processed one after the other; the changes are accumulated
  globally and per package; an error stops the call and leaves the tree as it is then
  (``no cross-package transaction'').
\<close>

fun extractAll ::
  "(string \<Rightarrow> string) \<Rightarrow> (string \<Rightarrow> package option) \<Rightarrow> options \<Rightarrow> string list \<Rightarrow> string list \<Rightarrow>
   ConsumerResult \<Rightarrow> tree \<Rightarrow> (syncError + ConsumerResult) \<times> tree" where
  "extractAll digest installed opts outputDir [] res t = (Inr res, t)"
| "extractAll digest installed opts outputDir (spec # rest) res t =
     (case installed spec of
        None \<Rightarrow> (Inl (PackageNotInstalled spec), t)
      | Some pkg \<Rightarrow>
          (case extractPackage digest opts pkg outputDir t of
             (Inl e, t') \<Rightarrow> (Inl e, t')
           | (Inr ch, t') \<Rightarrow>
               extractAll digest installed opts outputDir rest
                 (res\<lparr>added := added res @ added ch,
                      modified := modified res @ modified ch,
                      deleted := deleted res @ deleted ch,
                      skipped := skipped res @ skipped ch,
                      sourcePackages := sourcePackages res @ [(pkgName pkg, pkgVersion pkg, ch)]\<rparr>)
                 t'))"

definition extract_op ::
  "(string \<Rightarrow> string) \<Rightarrow> (string \<Rightarrow> package option) \<Rightarrow> options \<Rightarrow> string list \<Rightarrow> string list \<Rightarrow>
   tree \<Rightarrow> (syncError + ConsumerResult) \<times> tree" where
  "extract_op digest installed opts outputDir packages t =
     extractAll digest installed opts outputDir packages
       \<lparr>added = [], modified = [], deleted = [], skipped = [], sourcePackages = []\<rparr> t"

text \<open>
  Modelled from the spec: the ConsumerOrchestrator for \<^verbatim>\<open>check\<close> (section 4.4): ``fails
  with PackageNotInstalled if the external resolver cannot locate the package''; the result
  aggregates like the one of \<^verbatim>\<open>extract\<close>, ``with a per-package \<open>ok\<close> flag''.
\<close>

definition addDifferences :: "differences \<Rightarrow> differences \<Rightarrow> differences" where
  "addDifferences a b =
     \<lparr>missing = missing a @ missing b, modifiedFiles = modifiedFiles a @ modifiedFiles b,
      extra = extra a @ extra b\<rparr>"

fun checkAll ::
  "(string \<Rightarrow> string) \<Rightarrow> (string \<Rightarrow> package option) \<Rightarrow> options \<Rightarrow> string list \<Rightarrow> string list \<Rightarrow>
   CheckResult \<Rightarrow> tree \<Rightarrow> syncError + CheckResult" where
  "checkAll digest installed opts outputDir [] res t = Inr res"
| "checkAll digest installed opts outputDir (spec # rest) res t =
     (case installed spec of
        None \<Rightarrow> Inl (PackageNotInstalled spec)
      | Some pkg \<Rightarrow>
          (case checkPackage digest opts pkg outputDir t of
             Inl e \<Rightarrow> Inl e
           | Inr d \<Rightarrow>
               checkAll digest installed opts outputDir rest
                 \<lparr>ok = (ok res \<and> inSync d),
                  allDifferences = addDifferences (allDifferences res) d,
                  checkedPackages =
                    checkedPackages res @ [(pkgName pkg, pkgVersion pkg, inSync d, d)]\<rparr>
                 t))"

definition check ::
  "(string \<Rightarrow> string) \<Rightarrow> (string \<Rightarrow> package option) \<Rightarrow> options \<Rightarrow> string list \<Rightarrow> string list \<Rightarrow>
   tree \<Rightarrow> syncError + CheckResult" where
  "check digest installed opts outputDir packages t =
     checkAll digest installed opts outputDir packages
       \<lparr>ok = True, allDifferences = noDifferences, checkedPackages = []\<rparr> t"

text \<open>
  For the statements below: the entries of a package for a destination path, in the marker
  of the path's directory (\<open>None\<close> when that marker cannot be loaded).
\<close>

definition managedEntries :: "tree \<Rightarrow> string list \<Rightarrow> string \<Rightarrow> ManagedFileMetadata list option" where
  "managedEntries t destPath package =
     (case load t (butlast destPath) of
        Inl e \<Rightarrow> None
      | Inr entries \<Rightarrow>
          Some (filter (\<lambda>e. path e = entryName destPath \<and> packageName e = package) entries))"

text \<open>
  For the proofs below: a candidate file is in place when its destination holds content with the digest of the
  source and the marker of its directory lists it for the package. A marker directory is
  tidy when its marker loads and lists no orphan of the package.
\<close>

definition inPlace :: "(string \<Rightarrow> string) \<Rightarrow> package \<Rightarrow> string list \<Rightarrow> tree \<Rightarrow> string list \<times> string \<Rightarrow> bool" where
  "inPlace digest pkg outputDir t cand =
     ((case disk t (outputDir @ fst cand) of
         None \<Rightarrow> False
       | Some existing \<Rightarrow> digest existing = digest (snd cand)) \<and>
      (case managedEntries t (outputDir @ fst cand) (pkgName pkg) of
         None \<Rightarrow> False
       | Some entries \<Rightarrow> entries \<noteq> []))"

definition tidy :: "package \<Rightarrow> string list \<Rightarrow> string list list \<Rightarrow> tree \<Rightarrow> string list \<Rightarrow> bool" where
  "tidy pkg outputDir destPaths t dir =
     (if prefix outputDir dir
      then (case load t dir of
              Inl e \<Rightarrow> False
            | Inr entries \<Rightarrow> filter (isOrphan pkg destPaths dir) entries = [])
      else True)"

section \<open>Filename patterns: properties\<close>

lemma toList_not_falsy:
  "p \<in> set (toList patterns) \<Longrightarrow> startsWith p ''!'' \<Longrightarrow> \<not> falsyPatterns patterns"
  by (cases patterns) (auto simp: startsWith_def)

text \<open>
  The precedence itself: whenever some pattern of the list starts with \<^verbatim>\<open>!\<close> and
  \<^verbatim>\<open>matchesPattern\<close> accepts the rest of it for the file, the result is false, whatever the
  include patterns of the same list match.
\<close>

lemma excluded_when_matchesPattern:
  assumes "p \<in> set (toList patterns)"
    and "startsWith p ''!''"
    and "matchesPattern mm filePath (basename filePath) (resolve cwd filePath) (drop 1 p)"
  shows "matchesFilenamePattern mm cwd filePath patterns = False"
proof -
  have nf: "\<not> falsyPatterns patterns"
    using assms(1,2) by (rule toList_not_falsy)
  let ?ex = "map (drop 1) (filter (\<lambda>q. startsWith q ''!'') (toList patterns))"
  have mem: "drop 1 p \<in> set ?ex"
    using assms(1,2) by auto
  have ne: "?ex \<noteq> []"
    using mem by (metis empty_iff list.set(1))
  have hit: "list_ex (matchesPattern mm filePath (basename filePath) (resolve cwd filePath)) ?ex"
    unfolding list_ex_iff using mem assms(3) by blast
  show ?thesis
    unfolding matchesFilenamePattern_def Let_def using nf ne hit by simp
qed

text \<open>
  C3. The claim is that a path matching an exclude pattern is rejected, whatever the include
  patterns. The code does not do this for an exclude pattern that contains \<^verbatim>\<open>**\<close> and
  names a directory: such a pattern is matched against the absolute path
  (\<^verbatim>\<open>path.resolve\<close>), not against the path given. The relative path \<^verbatim>\<open>bin/file.js\<close>
  matches the glob \<^verbatim>\<open>bin/**\<close>, the pattern list holds \<^verbatim>\<open>!bin/**\<close>, and
  \<^verbatim>\<open>matchesFilenamePattern\<close> returns true, with the include pattern \<^verbatim>\<open>**/*.js\<close> and
  with no include pattern at all; the test ``should match multiple patterns'' expects
  false for the first call. The absolute path \<^verbatim>\<open>/w/bin/file.js\<close> that \<^verbatim>\<open>matchesPattern\<close>
  hands to minimatch does not match \<^verbatim>\<open>bin/**\<close>.
\<close>

theorem exclude_pattern_missed_on_directory:
  "''!bin/**'' \<in> set (toList (Array [''**/*.js'', ''!bin/**''])) \<and>
   startsWith ''!bin/**'' ''!'' \<and>
   minimatch ''bin/file.js'' (drop 1 ''!bin/**'') False \<and>
   matchesFilenamePattern minimatch ''/w'' ''bin/file.js'' (Array [''**/*.js'', ''!bin/**'']) = True \<and>
   matchesFilenamePattern minimatch ''/w'' ''bin/file.js'' (Array [''!bin/**'']) = True \<and>
   resolve ''/w'' ''bin/file.js'' = ''/w/bin/file.js'' \<and>
   \<not> matchesPattern minimatch ''bin/file.js'' (basename ''bin/file.js'')
       (resolve ''/w'' ''bin/file.js'') (drop 1 ''!bin/**'')"
  by code_simp

text \<open>
  C10. With the empty array as patterns every file is accepted: the array is truthy, both
  the include and the exclude list are empty, and the function falls through to
  \<^verbatim>\<open>return true\<close>. The outcome is the one of an absent argument.
\<close>

theorem empty_pattern_list_accepts:
  "matchesFilenamePattern mm cwd filePath (Array []) = True \<and>
   matchesFilenamePattern mm cwd filePath (Array []) =
     matchesFilenamePattern mm cwd filePath Undefined"
  by (simp add: matchesFilenamePattern_def)

section \<open>Content patterns and the walk: properties\<close>

text \<open>
  A pattern with neither the flag \<^verbatim>\<open>g\<close> nor the flag \<^verbatim>\<open>y\<close> is not changed by
  \<^verbatim>\<open>test\<close>, and its \<^verbatim>\<open>test\<close> does not depend on earlier calls.
\<close>

lemma test_without_flags:
  "\<not> global R \<Longrightarrow> \<not> sticky R \<Longrightarrow> test R S = (matchesText R S, R)"
  by (simp add: test_def matchesText_def regExpBuiltinExec_def split: option.splits)

lemma someTest_without_flags:
  "list_all (\<lambda>R. \<not> global R \<and> \<not> sticky R) patterns \<Longrightarrow>
   someTest patterns content = (list_ex (\<lambda>R. matchesText R content) patterns, patterns)"
  by (induction patterns) (auto simp: test_without_flags)

lemma ofList_toList: "ofList patterns (toList patterns) = patterns"
  by (cases patterns) simp_all

lemma matchesContentRegex_without_flags:
  "list_all (\<lambda>R. \<not> global R \<and> \<not> sticky R) (toList cr) \<Longrightarrow>
   \<exists>warnings. matchesContentRegex (\<lambda>q. if q = p then c else None) p cr =
     ((case cr of
         Undefined \<Rightarrow> True
       | _ \<Rightarrow> (case c of
                None \<Rightarrow> False
              | Some content \<Rightarrow> list_ex (\<lambda>R. matchesText R content) (toList cr))),
      warnings, cr)"
  by (cases cr; cases c)
     (simp_all add: matchesContentRegex_def someTest_without_flags test_without_flags)

lemma shouldInclude_walk_test:
  "shouldInclude mm cwd fp cr (p, c) =
     (matchesFilenamePattern mm cwd p fp \<and>
      (case cr of
         Undefined \<Rightarrow> True
       | _ \<Rightarrow> (case c of
                None \<Rightarrow> False
              | Some content \<Rightarrow> list_ex (\<lambda>R. matchesText R content) (toList cr))))"
  by (cases fp; cases cr; cases c) (simp_all add: shouldInclude_def matchesFilenamePattern_def)

lemma walkDir_filter:
  "walkable entries \<Longrightarrow> list_all (\<lambda>R. \<not> global R \<and> \<not> sticky R) (toList (snd (snd state))) \<Longrightarrow>
   \<exists>console. walkDir mm cwd fp currentDir entries state =
     Inr (fst state @
            map fst (filter (shouldInclude mm cwd fp (snd (snd state))) (visited currentDir entries)),
          console, snd (snd state))"
proof (induction mm cwd fp currentDir entries state rule: walkDir.induct)
  case (1 mm cwd fp currentDir state)
  then show ?case by (cases state) simp
next
  case (2 mm cwd fp currentDir fname node others results console cr)
  let ?full = "join2 currentDir fname"
  let ?keep = "shouldInclude mm cwd fp cr"
  have wf: "walkable others"
    using "2.prems" by simp
  have plain: "list_all (\<lambda>R. \<not> global R \<and> \<not> sticky R) (toList cr)"
    using "2.prems" by simp
  show ?case
  proof (cases node)
    case (File content)
    show ?thesis
    proof (cases "matchesFilenamePattern mm cwd ?full fp")
      case True
      obtain warnings where mc:
        "matchesContentRegex (\<lambda>p. if p = ?full then content else None) ?full cr =
           (?keep (?full, content), warnings, cr)"
        using matchesContentRegex_without_flags [OF plain, of ?full content] True
        by (auto simp: shouldInclude_walk_test)
      have "\<exists>c. walkDir mm cwd fp currentDir others
           (if ?keep (?full, content) then results @ [?full] else results, console @ warnings, cr) =
         Inr (fst (if ?keep (?full, content) then results @ [?full] else results,
                   console @ warnings, cr) @
              map fst (filter ?keep (visited currentDir others)), c, cr)"
        using "2.IH"(1) [OF refl File True mc [symmetric] refl wf] plain by simp
      then show ?thesis
        using File True mc by auto
    next
      case False
      from "2.IH"(2) [OF refl File False wf] plain
      show ?thesis
        using File False by (simp add: shouldInclude_walk_test)
    qed
  next
    case (Dir entries)
    show ?thesis
    proof (cases "startsWith fname ''.''")
      case True
      then have nn: "\<not> \<not> startsWith fname ''.''"
        by simp
      from "2.IH"(5) [OF refl Dir nn wf] plain
      show ?thesis
        using Dir True by simp
    next
      case False
      have we: "walkable entries"
        using "2.prems" Dir False by simp
      from "2.IH"(3) [OF refl Dir False we] plain
      obtain c1 where r1: "walkDir mm cwd fp ?full entries (results, console, cr) =
         Inr (results @ map fst (filter ?keep (visited ?full entries)), c1, cr)"
        by auto
      from "2.IH"(4) [OF refl Dir False r1 wf] plain
      obtain c2 where "walkDir mm cwd fp currentDir others
          (results @ map fst (filter ?keep (visited ?full entries)), c1, cr) =
         Inr ((results @ map fst (filter ?keep (visited ?full entries))) @
              map fst (filter ?keep (visited currentDir others)), c2, cr)"
        by auto
      then show ?thesis
        using Dir False r1 by simp
    qed
  next
    case Broken
    then show ?thesis using "2.prems" by simp
  qed
qed

text \<open>A walk that meets a broken entry throws: the error reaches the caller.\<close>

lemma walkDir_fails:
  "\<not> walkable entries \<Longrightarrow> \<exists>e. walkDir mm cwd fp currentDir entries state = Inl e"
proof (induction mm cwd fp currentDir entries state rule: walkDir.induct)
  case (1 mm cwd fp currentDir state)
  then show ?case by simp
next
  case (2 mm cwd fp currentDir fname node others results console cr)
  show ?case
  proof (cases node)
    case (File content)
    then show ?thesis
      using 2 by (auto simp: Let_def split: prod.splits)
  next
    case (Dir entries)
    show ?thesis
    proof (cases "startsWith fname ''.''")
      case True
      then show ?thesis
        using Dir 2 by simp
    next
      case False
      show ?thesis
      proof (cases "walkDir mm cwd fp (join2 currentDir fname) entries (results, console, cr)")
        case (Inl e)
        then show ?thesis
          using Dir False by simp
      next
        case (Inr b)
        have "walkable entries"
          using "2.IH"(3) [OF refl Dir False] Inr by auto
        then have "\<not> walkable others"
          using "2.prems" Dir False by simp
        from "2.IH"(4) [OF refl Dir False Inr this]
        show ?thesis
          using Dir False Inr by simp
      qed
    qed
  next
    case Broken
    then show ?thesis by simp
  qed
qed

text \<open>
  The files that the recursion reaches are the files of the tree that are not hidden.
\<close>

lemma allFiles_below_hidden:
  "list_ex (\<lambda>d. startsWith d ''.'') parents \<Longrightarrow>
   filter (\<lambda>f. \<not> hidden f \<and> P f) (allFiles currentDir parents entries) = []"
proof (induction currentDir parents entries rule: allFiles.induct)
  case (1 currentDir parents)
  then show ?case by simp
next
  case (2 currentDir parents fname node others)
  show ?case
  proof (cases node)
    case (File content)
    then show ?thesis using 2 by (simp add: hidden_def)
  next
    case (Dir entries)
    have "list_ex (\<lambda>d. startsWith d ''.'') (parents @ [fname])"
      using "2.prems" by (simp add: list_ex_iff)
    then show ?thesis using 2 Dir by simp
  next
    case Broken
    then show ?thesis using 2 by simp
  qed
qed

lemma visited_allFiles:
  "\<not> list_ex (\<lambda>d. startsWith d ''.'') parents \<Longrightarrow>
   map fst (filter P (visited currentDir entries)) =
   map fst (filter (\<lambda>f. \<not> hidden f \<and> P (fst f, snd (snd f))) (allFiles currentDir parents entries))"
proof (induction currentDir parents entries rule: allFiles.induct)
  case (1 currentDir parents)
  then show ?case by simp
next
  case (2 currentDir parents fname node others)
  show ?case
  proof (cases node)
    case (File content)
    then show ?thesis using 2 by (simp add: hidden_def)
  next
    case (Dir entries)
    show ?thesis
    proof (cases "startsWith fname ''.''")
      case True
      then have "list_ex (\<lambda>d. startsWith d ''.'') (parents @ [fname])"
        by (simp add: list_ex_iff)
      from allFiles_below_hidden [OF this]
      show ?thesis using 2 Dir True by simp
    next
      case False
      then have "\<not> list_ex (\<lambda>d. startsWith d ''.'') (parents @ [fname])"
        using "2.prems" by (simp add: list_ex_iff)
      then show ?thesis using 2 Dir False by simp
    qed
  next
    case Broken
    then show ?thesis using 2 by simp
  qed
qed

text \<open>
  C4. The claim, that a walk returns a file if and only if the file satisfies the filter,
  fails in two ways. A file below a directory whose name starts with a dot is never
  returned, whatever the patterns: with both arguments absent \<^verbatim>\<open>.github/ci.yml\<close> passes
  in both dimensions and is not in the result (the walk skips hidden directories, as the
  comment in \<^verbatim>\<open>walkDir\<close> says). And a content pattern with the flag \<^verbatim>\<open>g\<close> keeps its
  \<open>lastIndex\<close> from one file to the next: after matching \<^verbatim>\<open># x\<close> in \<^verbatim>\<open>a.txt\<close> the pattern
  \<^verbatim>\<open>/#/g\<close> searches \<^verbatim>\<open>b.txt\<close> from index 1 on, and \<^verbatim>\<open>b.txt\<close>, whose text \<^verbatim>\<open>#\<close> matches
  the pattern, is not returned.
\<close>

theorem findMatchingFiles_misses_files:
  "(''/tmp/t/.github/ci.yml'', [''.github''], Some ''on: push'') \<in>
     set (allFiles ''/tmp/t'' []
            [(''.github'', Dir [(''ci.yml'', File (Some ''on: push''))]),
             (''a.yml'', File (Some ''a: 1''))]) \<and>
   shouldInclude minimatch ''/w'' Undefined Undefined (''/tmp/t/.github/ci.yml'', Some ''on: push'') \<and>
   findMatchingFiles minimatch ''/w'' ''/tmp/t'' Undefined Undefined
     (Dir [(''.github'', Dir [(''ci.yml'', File (Some ''on: push''))]),
           (''a.yml'', File (Some ''a: 1''))]) =
     Inr ([''/tmp/t/a.yml''], [], Undefined) \<and>
   shouldInclude minimatch ''/w'' Undefined (Single (literalRegExp ''#'' True False))
     (''/tmp/t/b.txt'', Some ''#'') \<and>
   findMatchingFiles minimatch ''/w'' ''/tmp/t'' Undefined (Single (literalRegExp ''#'' True False))
     (Dir [(''a.txt'', File (Some ''# x'')), (''b.txt'', File (Some ''#''))]) =
     Inr ([''/tmp/t/a.txt''], [], Single (literalRegExp ''#'' True False))"
proof -
  have j: "join2 ''/tmp/t'' ''.github'' = ''/tmp/t/.github''"
    "join2 ''/tmp/t/.github'' ''ci.yml'' = ''/tmp/t/.github/ci.yml''"
    "join2 ''/tmp/t'' ''a.yml'' = ''/tmp/t/a.yml''"
    "join2 ''/tmp/t'' ''a.txt'' = ''/tmp/t/a.txt''"
    "join2 ''/tmp/t'' ''b.txt'' = ''/tmp/t/b.txt''"
    by code_simp+
  have a: "(''/tmp/t/.github/ci.yml'', [''.github''], Some ''on: push'') \<in>
     set (allFiles ''/tmp/t'' []
            [(''.github'', Dir [(''ci.yml'', File (Some ''on: push''))]),
             (''a.yml'', File (Some ''a: 1''))])"
    by (simp add: j)
  have b: "shouldInclude minimatch ''/w'' Undefined Undefined
      (''/tmp/t/.github/ci.yml'', Some ''on: push'')"
    by (simp add: shouldInclude_def)
  have c: "findMatchingFiles minimatch ''/w'' ''/tmp/t'' Undefined Undefined
     (Dir [(''.github'', Dir [(''ci.yml'', File (Some ''on: push''))]),
           (''a.yml'', File (Some ''a: 1''))]) =
     Inr ([''/tmp/t/a.yml''], [], Undefined)"
    by (simp add: findMatchingFiles_def j startsWith_def matchesFilenamePattern_def
        matchesContentRegex_def)
  have d: "shouldInclude minimatch ''/w'' Undefined (Single (literalRegExp ''#'' True False))
     (''/tmp/t/b.txt'', Some ''#'')"
    by (simp add: shouldInclude_def matchesText_def test_def regExpBuiltinExec_def
        literalRegExp_def)
  have t1: "test (literalRegExp ''#'' True False) ''# x'' =
      (True, (literalRegExp ''#'' True False)\<lparr>lastIndex := Suc 0\<rparr>)"
    by (simp add: test_def regExpBuiltinExec_def literalRegExp_def upt_rec)
  have t2: "test ((literalRegExp ''#'' True False)\<lparr>lastIndex := Suc 0\<rparr>) ''#'' =
      (False, literalRegExp ''#'' True False)"
    by (simp add: test_def regExpBuiltinExec_def literalRegExp_def upt_rec)
  have e: "findMatchingFiles minimatch ''/w'' ''/tmp/t'' Undefined
     (Single (literalRegExp ''#'' True False))
     (Dir [(''a.txt'', File (Some ''# x'')), (''b.txt'', File (Some ''#''))]) =
     Inr ([''/tmp/t/a.txt''], [], Single (literalRegExp ''#'' True False))"
    by (simp add: findMatchingFiles_def j matchesFilenamePattern_def matchesContentRegex_def
        t1 t2)
  show ?thesis
    using a b c d e by blast
qed

text \<open>
  C4, amended. For content patterns without the flags \<^verbatim>\<open>g\<close> and \<^verbatim>\<open>y\<close>, a walk that
  meets no broken entry returns, in the order of the walk, exactly the files of the tree
  that are not below a directory whose name starts with a dot and that satisfy the filter
  of the specification: the filename patterns and, when content patterns are supplied, at
  least one of them on the file's text; an absent filename argument lets every file pass the
  filename dimension, an absent content argument every file the content dimension. The
  patterns are left as they were.
\<close>

theorem findMatchingFiles_returns_unhidden_filtered:
  assumes "walkable entries"
    and "list_all (\<lambda>R. \<not> global R \<and> \<not> sticky R) (toList contentRegex)"
  shows "\<exists>console.
           findMatchingFiles mm cwd dir filenamePattern contentRegex (Dir entries) =
             Inr (map fst
                    (filter (\<lambda>f. \<not> hidden f \<and>
                                  shouldInclude mm cwd filenamePattern contentRegex
                                    (fst f, snd (snd f)))
                       (allFiles dir [] entries)),
                  console, contentRegex)"
proof -
  have "map fst (filter (shouldInclude mm cwd filenamePattern contentRegex) (visited dir entries)) =
        map fst (filter (\<lambda>f. \<not> hidden f \<and>
                   shouldInclude mm cwd filenamePattern contentRegex (fst f, snd (snd f)))
                 (allFiles dir [] entries))"
    by (rule visited_allFiles) simp
  then show ?thesis
    using walkDir_filter [OF assms(1), of "([], [], contentRegex)" mm cwd filenamePattern dir]
      assms(2)
    by (simp add: findMatchingFiles_def)
qed

theorem findMatchingFiles_returns_unhidden_filtered_witness:
  "walkable [(''file1.txt'', File (Some ''# Header'')),
             (''file2.txt'', File (Some ''No header here'')),
             (''notes.md'', File (Some ''# Notes'')),
             (''sub'', Dir [(''file3.txt'', File (Some ''a # b'')), (''raw.txt'', File None)]),
             (''.git'', Dir [(''x.txt'', File (Some ''#''))])] \<and>
   list_all (\<lambda>R. \<not> global R \<and> \<not> sticky R) (toList (Array [literalRegExp ''#'' False False])) \<and>
   (\<exists>console.
      findMatchingFiles minimatch ''/w'' ''/tmp/t'' (Array [''**/*.txt''])
        (Array [literalRegExp ''#'' False False])
        (Dir [(''file1.txt'', File (Some ''# Header'')),
              (''file2.txt'', File (Some ''No header here'')),
              (''notes.md'', File (Some ''# Notes'')),
              (''sub'', Dir [(''file3.txt'', File (Some ''a # b'')), (''raw.txt'', File None)]),
              (''.git'', Dir [(''x.txt'', File (Some ''#''))])]) =
        Inr ([''/tmp/t/file1.txt'', ''/tmp/t/sub/file3.txt''], console,
             Array [literalRegExp ''#'' False False]))"
proof -
  let ?t = "[(''file1.txt'', File (Some ''# Header'')),
             (''file2.txt'', File (Some ''No header here'')),
             (''notes.md'', File (Some ''# Notes'')),
             (''sub'', Dir [(''file3.txt'', File (Some ''a # b'')), (''raw.txt'', File None)]),
             (''.git'', Dir [(''x.txt'', File (Some ''#''))])]"
  let ?cr = "Array [literalRegExp ''#'' False False]"
  have w: "walkable ?t"
    by (simp add: startsWith_def)
  have p: "list_all (\<lambda>R. \<not> global R \<and> \<not> sticky R) (toList ?cr)"
    by (simp add: literalRegExp_def)
  have f: "map fst (filter (\<lambda>f. \<not> hidden f \<and>
                       shouldInclude minimatch ''/w'' (Array [''**/*.txt'']) ?cr (fst f, snd (snd f)))
             (allFiles ''/tmp/t'' [] ?t)) = [''/tmp/t/file1.txt'', ''/tmp/t/sub/file3.txt'']"
    by code_simp
  show ?thesis
    using w p f findMatchingFiles_returns_unhidden_filtered [OF w p, of minimatch "''/w''" "''/tmp/t''"
        "Array [''**/*.txt'']"]
    by simp
qed

text \<open>
  C9. When content patterns are supplied and the file cannot be read,
  \<^verbatim>\<open>matchesContentRegex\<close> returns false and writes one warning; it throws nothing and
  tests no pattern. In the walk such a file is left out of the results and the walk goes on
  with the next entry.
\<close>

theorem unreadable_file_is_skipped:
  assumes "readUtf8 filePath = None"
    and "patterns \<noteq> Undefined"
  shows "matchesContentRegex readUtf8 filePath patterns =
           (False, [unreadableWarning filePath], patterns) \<and>
         walkDir mm cwd filenamePattern currentDir ((fname, File None) # others)
             (results, console, patterns) =
           walkDir mm cwd filenamePattern currentDir others
             (results,
              console @ (if matchesFilenamePattern mm cwd (join2 currentDir fname) filenamePattern
                         then [unreadableWarning (join2 currentDir fname)] else []),
              patterns)"
  using assms by (cases patterns) (simp_all add: matchesContentRegex_def)

theorem unreadable_file_is_skipped_witness:
  "(\<lambda>p. if p = ''/t/ok.txt'' then Some ''text'' else None) ''/t/raw.bin'' = None \<and>
   Array [literalRegExp ''#'' False False] \<noteq> Undefined \<and>
   matchesContentRegex (\<lambda>p. if p = ''/t/ok.txt'' then Some ''text'' else None) ''/t/raw.bin''
     (Array [literalRegExp ''#'' False False]) =
     (False, [unreadableWarning ''/t/raw.bin''], Array [literalRegExp ''#'' False False]) \<and>
   walkDir minimatch ''/w'' Undefined ''/t''
     [(''raw.bin'', File None)] ([], [], Array [literalRegExp ''#'' False False]) =
     Inr ([], [unreadableWarning ''/t/raw.bin''], Array [literalRegExp ''#'' False False])"
proof -
  have j: "join2 ''/t'' ''raw.bin'' = ''/t/raw.bin''"
    by code_simp
  show ?thesis
    using j unreadable_file_is_skipped
        [of "\<lambda>p. if p = ''/t/ok.txt'' then Some ''text'' else None" "''/t/raw.bin''"
            "Array [literalRegExp ''#'' False False]" minimatch "''/w''" Undefined
            "''/t''" "''raw.bin''" "[]" "[]" "[]"]
    by (simp add: matchesFilenamePattern_def)
qed

section \<open>Version constraints: properties\<close>

text \<open>
  C7, as stated, fails: the installed versions \<^verbatim>\<open>1.0.0\<close> and \<^verbatim>\<open>1.0.0-beta\<close> parse to the
  same triple, and the constraint \<^verbatim>\<open>1.0.0\<close> accepts the first (the strings are equal) and
  rejects the second (no operator: the installed string is compared with the version string).
\<close>

theorem validateSemverMatch_same_triple_counterexample:
  "parseInstalled ''1.0.0'' = parseInstalled ''1.0.0-beta'' \<and>
   validateSemverMatch ''1.0.0'' (Some ''1.0.0'') \<and>
   \<not> validateSemverMatch ''1.0.0-beta'' (Some ''1.0.0'')"
  by code_simp

lemma vsm_None: "matchConstraint c = None \<Longrightarrow> c \<noteq> [] \<Longrightarrow> v \<noteq> c \<Longrightarrow> validateSemverMatch v (Some c) = False"
  by (simp add: validateSemverMatch_def split: prod.splits)

lemma vsm_exact:
  "matchConstraint c = Some (op, version) \<Longrightarrow> op = ''='' \<or> op = [] \<Longrightarrow> c \<noteq> [] \<Longrightarrow>
   validateSemverMatch v (Some c) = (v = c \<or> v = version)"
  by (cases "parseInstalled v"; cases "parseVersion version")
     (auto simp: validateSemverMatch_def)

lemma vsm_range:
  assumes "matchConstraint c = Some (op, version)" "op \<noteq> ''=''" "op \<noteq> []" "c \<noteq> []"
    "v1 \<noteq> c" "v2 \<noteq> c" "parseInstalled v1 = parseInstalled v2"
  shows "validateSemverMatch v1 (Some c) = validateSemverMatch v2 (Some c)"
  using assms by (simp add: validateSemverMatch_def)

text \<open>
  C7, amended. An absent constraint yields true. For a constraint that does not parse to
  the operator \<^verbatim>\<open>=\<close> or to no operator, two installed versions with the same parsed
  triple, both different from the constraint string, yield the same result. For a constraint
  with the operator \<^verbatim>\<open>=\<close> or none, the result is the equality of the installed string
  with the constraint string or with its version part.
\<close>

theorem validateSemverMatch_by_triples:
  "validateSemverMatch v None = True \<and>
   (parseInstalled v1 = parseInstalled v2 \<and> v1 \<noteq> c \<and> v2 \<noteq> c \<and>
    (\<forall>version. matchConstraint c \<noteq> Some (''='', version) \<and>
               matchConstraint c \<noteq> Some ([], version))
    \<longrightarrow> validateSemverMatch v1 (Some c) = validateSemverMatch v2 (Some c)) \<and>
   (c \<noteq> [] \<and> matchConstraint c = Some (op, version) \<and> (op = ''='' \<or> op = [])
    \<longrightarrow> validateSemverMatch v (Some c) = (v = c \<or> v = version))"
proof (intro conjI impI)
  show "validateSemverMatch v None = True"
    by (simp add: validateSemverMatch_def)
next
  assume h: "parseInstalled v1 = parseInstalled v2 \<and> v1 \<noteq> c \<and> v2 \<noteq> c \<and>
    (\<forall>version. matchConstraint c \<noteq> Some (''='', version) \<and>
               matchConstraint c \<noteq> Some ([], version))"
  show "validateSemverMatch v1 (Some c) = validateSemverMatch v2 (Some c)"
  proof (cases "c = []")
    case True
    then show ?thesis by (simp add: validateSemverMatch_def)
  next
    case ne: False
    show ?thesis
    proof (cases "matchConstraint c")
      case None
      then show ?thesis using ne h by (simp add: vsm_None)
    next
      case (Some a)
      obtain op' version' where a: "a = (op', version')" by (cases a)
      have "op' \<noteq> ''=''" "op' \<noteq> []"
        using h Some a by blast+
      then show ?thesis
        using vsm_range [of c op' version' v1 v2] Some a ne h by blast
    qed
  qed
next
  assume "c \<noteq> [] \<and> matchConstraint c = Some (op, version) \<and> (op = ''='' \<or> op = [])"
  then show "validateSemverMatch v (Some c) = (v = c \<or> v = version)"
    using vsm_exact by blast
qed

theorem validateSemverMatch_by_triples_witness:
  "parseInstalled ''1.2.3'' = parseInstalled ''1.2.3-rc1'' \<and>
   matchConstraint ''^1.2.0'' = Some (''^'', ''1.2.0'') \<and>
   validateSemverMatch ''1.2.3'' (Some ''^1.2.0'') =
     validateSemverMatch ''1.2.3-rc1'' (Some ''^1.2.0'') \<and>
   matchConstraint ''=1.0.0'' = Some (''='', ''1.0.0'') \<and>
   validateSemverMatch ''1.0.0'' (Some ''=1.0.0'') = True \<and>
   validateSemverMatch ''1.0.0'' None = True"
proof -
  have t: "parseInstalled ''1.2.3'' = parseInstalled ''1.2.3-rc1''"
    by code_simp
  have m1: "matchConstraint ''^1.2.0'' = Some (''^'', ''1.2.0'')"
    by code_simp
  have m2: "matchConstraint ''=1.0.0'' = Some (''='', ''1.0.0'')"
    by code_simp
  have h: "\<forall>version. matchConstraint ''^1.2.0'' \<noteq> Some (''='', version) \<and>
               matchConstraint ''^1.2.0'' \<noteq> Some ([], version)"
    unfolding m1 by simp
  have n: "''1.2.3'' \<noteq> ''^1.2.0''" "''1.2.3-rc1'' \<noteq> ''^1.2.0''" "''=1.0.0'' \<noteq> []"
    by simp_all
  note th1 = validateSemverMatch_by_triples
        [of "''1.0.0''" "''1.2.3''" "''1.2.3-rc1''" "''^1.2.0''" "''=''" "''1.0.0''"]
  note th2 = validateSemverMatch_by_triples
        [of "''1.0.0''" "''1.2.3''" "''1.2.3-rc1''" "''=1.0.0''" "''=''" "''1.0.0''"]
  have a: "validateSemverMatch ''1.2.3'' (Some ''^1.2.0'') =
     validateSemverMatch ''1.2.3-rc1'' (Some ''^1.2.0'')"
    using th1 t h n by blast
  have "validateSemverMatch ''1.0.0'' (Some ''=1.0.0'') = (''1.0.0'' = ''=1.0.0'' \<or> ''1.0.0'' = ''1.0.0'')"
    using th2 m2 n by blast
  then have b: "validateSemverMatch ''1.0.0'' (Some ''=1.0.0'') = True"
    by simp
  have c: "validateSemverMatch ''1.0.0'' None = True"
    using th1 by blast
  show ?thesis
    using t m1 m2 a b c by blast
qed

section \<open>The default patterns: properties\<close>

lemma splitOn_no_sep: "c \<notin> set s \<Longrightarrow> splitOn c s = [s]"
  by (induction s) auto

lemma splitOn_nonempty: "splitOn c s \<noteq> []"
  by (induction s) (auto split: list.splits)

lemma splitOn_append: "splitOn c (a @ c # b) = splitOn c a @ splitOn c b"
proof (induction a)
  case Nil
  then show ?case by simp
next
  case (Cons x a)
  then show ?case
    using splitOn_nonempty [of c a] by (cases "splitOn c a") auto
qed

lemma splitOn_trailing: "c \<notin> set name \<Longrightarrow> splitOn c (name @ replicate k c) = name # replicate k []"
proof (induction k)
  case 0
  then show ?case by (simp add: splitOn_no_sep)
next
  case (Suc k)
  have "name @ replicate (Suc k) c = (name @ replicate k c) @ c # []"
    by (simp add: replicate_append_same)
  then have "splitOn c (name @ replicate (Suc k) c) = splitOn c (name @ replicate k c) @ splitOn c []"
    using splitOn_append [of c "name @ replicate k c" "[]"] by simp
  then show ?case using Suc by (simp add: replicate_append_same)
qed


lemma lastNonEmpty_drop_empties:
  "lastNonEmpty (x # filter (\<lambda>seg. seg \<noteq> []) ys @ [z]) = lastNonEmpty (x # ys @ [z])"
  by (simp add: lastNonEmpty_def rev_filter)

lemma lastNonEmpty_splitSlashes: "lastNonEmpty (splitSlashes s) = lastNonEmpty (splitOn CHR ''/'' s)"
proof -
  obtain x rest where sp: "splitOn CHR ''/'' s = x # rest"
    using splitOn_nonempty [of "CHR ''/''" s] by (cases "splitOn CHR ''/'' s") auto
  show ?thesis
  proof (cases "rest = []")
    case True
    then show ?thesis using sp by (simp add: splitSlashes_def)
  next
    case False
    then have r: "butlast rest @ [last rest] = rest" by simp
    have "lastNonEmpty (splitSlashes s) =
        lastNonEmpty (x # filter (\<lambda>seg. seg \<noteq> []) (butlast rest) @ [last rest])"
      using sp False by (simp add: splitSlashes_def)
    also have "\<dots> = lastNonEmpty (x # butlast rest @ [last rest])"
      by (rule lastNonEmpty_drop_empties)
    finally show ?thesis
      using sp r by simp
  qed
qed

lemma lastNonEmpty_tail:
  "name \<noteq> [] \<Longrightarrow> lastNonEmpty (xs @ name # replicate k []) = name"
  by (simp add: lastNonEmpty_def)

lemma lastNonEmpty_all_empty: "lastNonEmpty ([] # replicate k []) = []"
  by (simp add: lastNonEmpty_def)

lemma strip_trailing: "\<exists>k. xs = replicate k c @ dropWhile (\<lambda>x. x = c) xs"
proof (induction xs)
  case Nil
  then show ?case by simp
next
  case (Cons a xs)
  show ?case
  proof (cases "a = c")
    case True
    from Cons obtain k where "xs = replicate k c @ dropWhile (\<lambda>x. x = c) xs" by blast
    then have "a # xs = replicate (Suc k) c @ dropWhile (\<lambda>x. x = c) (a # xs)"
      using True by simp
    then show ?thesis by blast
  next
    case False
    then have "a # xs = replicate 0 c @ dropWhile (\<lambda>x. x = c) (a # xs)" by simp
    then show ?thesis by blast
  qed
qed

lemma lastNonEmpty_splitOn_basename: "lastNonEmpty (splitOn CHR ''/'' s) = basename s"
proof -
  define t where "t = dropWhile (\<lambda>c. c = CHR ''/'') (rev s)"
  define name where "name = rev (takeWhile (\<lambda>c. c \<noteq> CHR ''/'') t)"
  define d where "d = dropWhile (\<lambda>c. c \<noteq> CHR ''/'') t"
  have "\<exists>k. rev s = replicate k CHR ''/'' @ t"
    unfolding t_def by (rule strip_trailing)
  then obtain k where k: "rev s = replicate k CHR ''/'' @ t" ..
  have "rev (rev s) = rev t @ replicate k CHR ''/''"
    unfolding k by simp
  moreover have "rev t = rev d @ name"
    unfolding name_def d_def by (simp flip: rev_append)
  ultimately have s: "s = rev d @ name @ replicate k CHR ''/''"
    by simp
  have nn: "CHR ''/'' \<notin> set name"
    unfolding name_def using set_takeWhileD by fastforce
  have bn: "basename s = name"
    by (simp add: basename_def name_def t_def)
  have tl: "splitOn CHR ''/'' (name @ replicate k CHR ''/'') = name # replicate k []"
    by (rule splitOn_trailing [OF nn])
  show ?thesis
  proof (cases d)
    case Nil
    then have "splitOn CHR ''/'' s = name # replicate k []"
      by (subst s) (simp add: tl)
    then show ?thesis
      unfolding bn by (cases "name = []") (simp_all add: lastNonEmpty_tail [of _ "[]", simplified] lastNonEmpty_all_empty)
  next
    case (Cons a d')
    have "a = CHR ''/''"
      using Cons hd_dropWhile [of "\<lambda>c. c \<noteq> CHR ''/''" t] unfolding d_def by force
    have tne: "t \<noteq> []"
      using Cons unfolding d_def by auto
    have "hd t \<noteq> CHR ''/''"
      using tne hd_dropWhile [of "\<lambda>c. c = CHR ''/''" "rev s"] unfolding t_def by blast
    then have namene: "name \<noteq> []"
      unfolding name_def using tne by (cases t) auto
    have "s = rev d' @ CHR ''/'' # (name @ replicate k CHR ''/'')"
      by (subst s) (simp add: Cons \<open>a = CHR ''/''\<close>)
    then have "splitOn CHR ''/'' s = splitOn CHR ''/'' (rev d') @ (name # replicate k [])"
      using splitOn_append [of "CHR ''/''" "rev d'" "name @ replicate k CHR ''/''"] tl by simp
    then show ?thesis
      unfolding bn using lastNonEmpty_tail [OF namene] by simp
  qed
qed

lemma lastSegment_basename: "lastNonEmpty (splitSlashes s) = basename s"
  by (simp add: lastNonEmpty_splitSlashes lastNonEmpty_splitOn_basename)

lemma basename_no_slash: "CHR ''/'' \<notin> set (basename p)"
  unfolding basename_def using set_takeWhileD by fastforce

lemma splitSlashes_no_slash: "CHR ''/'' \<notin> set s \<Longrightarrow> splitSlashes s = [s]"
  by (simp add: splitSlashes_def splitOn_no_sep)

lemma splitSlashes_leading: "\<exists>rest. splitSlashes (CHR ''/'' # xs) = [] # rest"
  by (simp add: splitSlashes_def)

lemma resolve_leading: "\<exists>xs. resolve cwd p = CHR ''/'' # xs"
  by (simp add: resolve_def Let_def)

lemma minimatch_literal_name:
  "CHR ''/'' \<notin> set name \<Longrightarrow> \<not> hasMagic pat \<Longrightarrow> pat \<noteq> [] \<Longrightarrow> CHR ''/'' \<notin> set pat \<Longrightarrow>
   pat \<noteq> ''**'' \<Longrightarrow>
   minimatch name pat False = (name = pat)"
  by (simp add: minimatch_def splitSlashes_no_slash partMatch_def)

lemma minimatch_globstar_base:
  "minimatch absPath ''**'' True = (\<not> dotSegment (lastNonEmpty (splitSlashes absPath)))"
proof -
  have "splitSlashes ''**'' = [''**'']" by code_simp
  then show ?thesis by (simp add: minimatch_def)
qed

lemma minimatch_relative_dir_absolute:
  assumes "splitSlashes pat = d # ''**'' # []" "d \<noteq> []" "d \<noteq> ''**''" "\<not> hasMagic d"
  shows "minimatch (CHR ''/'' # xs) pat True = False"
proof -
  obtain rest where r: "splitSlashes (CHR ''/'' # xs) = [] # rest"
    using splitSlashes_leading by blast
  have "pat \<noteq> []" using assms(1) by (auto simp: splitSlashes_def)
  then show ?thesis
    using assms r by (simp add: minimatch_def partMatch_def)
qed

text \<open>
  What the default patterns decide, for every path: the two directory patterns are matched
  against the absolute path, which starts with a slash, so neither ever matches.
\<close>

lemma default_patterns_decide:
  "matchesFilenamePattern minimatch cwd filePath (Array DEFAULT_FILENAME_PATTERNS) =
     (\<not> dotSegment (basename (resolve cwd filePath)) \<and>
      basename filePath \<noteq> ''package.json'' \<and> basename filePath \<noteq> ''README.md'')"
proof -
  obtain xs where ap: "resolve cwd filePath = CHR ''/'' # xs"
    using resolve_leading by blast
  have b1: "splitSlashes ''bin/**'' = [''bin'', ''**'']" by code_simp
  have b2: "splitSlashes ''node_modules/**'' = [''node_modules'', ''**'']" by code_simp
  have m1: "minimatch (CHR ''/'' # xs) ''bin/**'' True = False"
    by (rule minimatch_relative_dir_absolute [OF b1]) (simp_all add: hasMagic_def)
  have m2: "minimatch (CHR ''/'' # xs) ''node_modules/**'' True = False"
    by (rule minimatch_relative_dir_absolute [OF b2]) (simp_all add: hasMagic_def)
  have n1: "minimatch (basename filePath) ''package.json'' False = (basename filePath = ''package.json'')"
    by (rule minimatch_literal_name [OF basename_no_slash]) (simp_all add: hasMagic_def)
  have n2: "minimatch (basename filePath) ''README.md'' False = (basename filePath = ''README.md'')"
    by (rule minimatch_literal_name [OF basename_no_slash]) (simp_all add: hasMagic_def)
  have i: "includes_str ''**'' ''**''" "\<not> includes_str ''package.json'' ''**''"
    "includes_str ''bin/**'' ''**''" "\<not> includes_str ''README.md'' ''**''"
    "includes_str ''node_modules/**'' ''**''"
    by code_simp+
  show ?thesis
    using m1 m2 n1 n2 i minimatch_globstar_base [of "CHR ''/'' # xs"]
      lastSegment_basename [of "CHR ''/'' # xs"]
    by (auto simp: matchesFilenamePattern_def DEFAULT_FILENAME_PATTERNS_def startsWith_def
        matchesPattern_def ap Let_def)
qed

text \<open>
  C5, as stated, fails. With no patterns supplied, a file whose name starts with a dot is
  rejected, though it is not named \<^verbatim>\<open>package.json\<close> or \<^verbatim>\<open>README.md\<close> and lies outside
  \<^verbatim>\<open>bin/\<close> and \<^verbatim>\<open>node_modules/\<close>: the only include pattern is \<^verbatim>\<open>**\<close>, which does not
  match a name with a leading dot. And a file under \<^verbatim>\<open>bin/\<close> is accepted: the pattern
  \<^verbatim>\<open>bin/**\<close> is matched against the absolute path.
\<close>

theorem default_patterns_counterexample:
  "\<not> matchesFilenamePattern minimatch ''/srv'' ''/srv/pkg/.editorconfig''
       (consumerFilenamePatterns None) \<and>
   matchesFilenamePattern minimatch ''/srv'' ''/srv/pkg/bin/cli.js''
     (consumerFilenamePatterns None)"
  by code_simp

text \<open>
  C5, amended. With no patterns supplied the default patterns apply, and under them a path
  below the package root that is not under the package's \<^verbatim>\<open>bin/\<close> or \<^verbatim>\<open>node_modules/\<close>
  is accepted exactly when its file name does not start with a dot and is neither
  \<^verbatim>\<open>package.json\<close> nor \<^verbatim>\<open>README.md\<close>.
\<close>

theorem default_patterns_outside_bin:
  assumes "filePath = packageRoot @ ''/'' @ rel"
    and "\<not> startsWith rel ''bin/''"
    and "\<not> startsWith rel ''node_modules/''"
  shows "matchesFilenamePattern minimatch cwd filePath (consumerFilenamePatterns None) =
           (\<not> dotSegment (basename (resolve cwd filePath)) \<and>
            basename filePath \<noteq> ''package.json'' \<and> basename filePath \<noteq> ''README.md'')"
  by (simp add: consumerFilenamePatterns_def default_patterns_decide)

theorem default_patterns_outside_bin_witness:
  "''/srv/pkg/docs/guide.md'' = ''/srv/pkg'' @ ''/'' @ ''docs/guide.md'' \<and>
   \<not> startsWith ''docs/guide.md'' ''bin/'' \<and>
   \<not> startsWith ''docs/guide.md'' ''node_modules/'' \<and>
   matchesFilenamePattern minimatch ''/srv'' ''/srv/pkg/docs/guide.md''
     (consumerFilenamePatterns None) = True \<and>
   matchesFilenamePattern minimatch ''/srv'' ''/srv/pkg/docs/README.md''
     (consumerFilenamePatterns None) = False"
proof -
  have h1: "''/srv/pkg/docs/guide.md'' = ''/srv/pkg'' @ ''/'' @ ''docs/guide.md''"
    by simp
  have h1': "''/srv/pkg/docs/README.md'' = ''/srv/pkg'' @ ''/'' @ ''docs/README.md''"
    by simp
  have h2: "\<not> startsWith ''docs/guide.md'' ''bin/''" "\<not> startsWith ''docs/README.md'' ''bin/''"
    by (simp_all add: startsWith_def)
  have h3: "\<not> startsWith ''docs/guide.md'' ''node_modules/''"
    "\<not> startsWith ''docs/README.md'' ''node_modules/''"
    by (simp_all add: startsWith_def)
  have r1: "(\<not> dotSegment (basename (resolve ''/srv'' ''/srv/pkg/docs/guide.md'')) \<and>
      basename ''/srv/pkg/docs/guide.md'' \<noteq> ''package.json'' \<and>
      basename ''/srv/pkg/docs/guide.md'' \<noteq> ''README.md'') = True"
    by code_simp
  have r2: "(\<not> dotSegment (basename (resolve ''/srv'' ''/srv/pkg/docs/README.md'')) \<and>
      basename ''/srv/pkg/docs/README.md'' \<noteq> ''package.json'' \<and>
      basename ''/srv/pkg/docs/README.md'' \<noteq> ''README.md'') = False"
    by code_simp
  have a: "matchesFilenamePattern minimatch ''/srv'' ''/srv/pkg/docs/guide.md''
     (consumerFilenamePatterns None) = True"
    using default_patterns_outside_bin [OF h1 h2(1) h3(1), of "''/srv''"] r1 by simp
  have b: "matchesFilenamePattern minimatch ''/srv'' ''/srv/pkg/docs/README.md''
     (consumerFilenamePatterns None) = False"
    using default_patterns_outside_bin [OF h1' h2(2) h3(2), of "''/srv''"] r2 by simp
  show ?thesis
    using h1 h2(1) h3(1) a b by blast
qed

text \<open>
  The same on a relative path: the test ``should match multiple patterns'' of the utils
  expects \<^verbatim>\<open>false\<close> for this call, in any working directory.
\<close>

lemma bin_paths_are_not_excluded:
  "matchesFilenamePattern minimatch ''/w'' ''bin/file.js'' (Array [''**/*.js'', ''!bin/**''])"
  by code_simp

section \<open>Marker files: properties\<close>

text \<open>What is stored are bytes: every number of an encoded text is below 256.\<close>

lemma encodeText_bytes: "b \<in> set (encodeText enc s) \<Longrightarrow> b < 256"
proof -
  have small: "of_char c < (256 :: nat)" for c
    by (cases c) simp
  have two: "n < 256 \<Longrightarrow> 192 + n div 64 < 256 \<and> 128 + n mod 64 < 256" for n :: nat
    by (simp add: less_mult_imp_div_less add.commute)
  show "b \<in> set (encodeText enc s) \<Longrightarrow> b < 256"
    using small two by (cases enc) (auto simp: utf8Bytes_def Let_def split: if_splits)
qed

text \<open>
  C8. Where no directory on the way to the file exists as a regular file and the file's
  path is not a directory, \<^verbatim>\<open>writeJsonFile\<close> succeeds: the file then holds the UTF-8
  bytes of the serialisation of the data with indentation 2 followed by one newline; the
  directory of the file exists afterwards, created with the directories above it when it did
  not exist; no other file changes. The serialisation is pretty-printed and keeps the order
  of the properties: an object is written as an opening brace, one line per property in the
  order of the object, each indented and written as the quoted name, a colon, a blank and
  the value, the lines separated by commas, and the closing brace on a line of its own; an
  array in the same way between brackets. In UTF-8 a character below U+0080 is written as
  one byte and any other as two.
\<close>

theorem writeJsonFile_saves:
  assumes "list_all (\<lambda>p. files fs p = None) (pathPrefixes (dirname filePath))"
    and "filePath \<notin> dirs fs"
    and "filePath \<notin> set (pathPrefixes (dirname filePath))"
  shows "(\<exists>fs'. writeJsonFile fs filePath data = Inr fs' \<and>
            files fs' filePath = Some (encodeText Utf8 (JSON_stringify data 2 @ [CHR 0x0A])) \<and>
            dirname filePath \<in> dirs fs' \<and>
            dirs fs' = (if existsSync fs (dirname filePath) then dirs fs
                        else dirs fs \<union> set (pathPrefixes (dirname filePath))) \<and>
            (\<forall>q. q \<noteq> filePath \<longrightarrow> files fs' q = files fs q)) \<and>
         JSON_stringify (JObject (kv # kvs)) 2 =
           ''{'' @ [CHR 0x0A] @ ''  '' @
           joinWith ('','' @ [CHR 0x0A] @ ''  '')
             (map (\<lambda>kv. [CHR 0x22] @ concat (map quoteChar (fst kv)) @ [CHR 0x22] @ '': '' @
                         serialize 2 ''  '' (snd kv)) (kv # kvs)) @
           [CHR 0x0A] @ ''}'' \<and>
         JSON_stringify (JArray (x # xs)) 2 =
           ''['' @ [CHR 0x0A] @ ''  '' @
           joinWith ('','' @ [CHR 0x0A] @ ''  '') (map (serialize 2 ''  '') (x # xs)) @
           [CHR 0x0A] @ '']'' \<and>
         encodeText Utf8 (c # s) =
           (if of_char c < (128 :: nat) then [of_char c]
            else [192 + of_char c div 64, 128 + of_char c mod 64]) @ encodeText Utf8 s"
proof -
  let ?d = "dirname filePath"
  have self: "?d \<in> set (pathPrefixes ?d)"
    by (simp add: pathPrefixes_def)
  have nofile: "\<not> list_ex (\<lambda>p. files fs p \<noteq> None) (pathPrefixes ?d)"
    using assms(1) by (simp add: list_all_iff list_ex_iff)
  have dnone: "files fs ?d = None"
    using assms(1) self by (simp add: list_all_iff)
  have written: "\<exists>fs'. writeJsonFile fs filePath data = Inr fs' \<and>
            files fs' filePath = Some (encodeText Utf8 (JSON_stringify data 2 @ [CHR 0x0A])) \<and>
            dirname filePath \<in> dirs fs' \<and>
            dirs fs' = (if existsSync fs (dirname filePath) then dirs fs
                        else dirs fs \<union> set (pathPrefixes (dirname filePath))) \<and>
            (\<forall>q. q \<noteq> filePath \<longrightarrow> files fs' q = files fs q)"
  proof (cases "existsSync fs ?d")
    case True
    then have "?d \<in> dirs fs"
      using dnone by (simp add: existsSync_def)
    then show ?thesis
      using True assms(2)
      by (simp add: writeJsonFile_def ensureDir_def writeFileSync_def)
  next
    case False
    then show ?thesis
      using nofile self assms(2,3)
      by (simp add: writeJsonFile_def ensureDir_def mkdirSync_recursive_def writeFileSync_def)
  qed
  have object: "JSON_stringify (JObject (kv # kvs)) 2 =
           ''{'' @ [CHR 0x0A] @ ''  '' @
           joinWith ('','' @ [CHR 0x0A] @ ''  '')
             (map (\<lambda>kv. [CHR 0x22] @ concat (map quoteChar (fst kv)) @ [CHR 0x22] @ '': '' @
                         serialize 2 ''  '' (snd kv)) (kv # kvs)) @
           [CHR 0x0A] @ ''}''"
    by (simp add: JSON_stringify_def quoteJSONString_def numeral_2_eq_2 Let_def)
  have array: "JSON_stringify (JArray (x # xs)) 2 =
           ''['' @ [CHR 0x0A] @ ''  '' @
           joinWith ('','' @ [CHR 0x0A] @ ''  '') (map (serialize 2 ''  '') (x # xs)) @
           [CHR 0x0A] @ '']''"
    by (simp add: JSON_stringify_def numeral_2_eq_2 Let_def)
  have bytes: "encodeText Utf8 (c # s) =
           (if of_char c < (128 :: nat) then [of_char c]
            else [192 + of_char c div 64, 128 + of_char c mod 64]) @ encodeText Utf8 s"
    by (simp add: utf8Bytes_def Let_def)
  show ?thesis
    using written object array bytes by blast
qed

theorem writeJsonFile_saves_witness:
  "list_all (\<lambda>p. files \<lparr>dirs = {''/out''}, files = Map.empty\<rparr> p = None)
     (pathPrefixes (dirname ''/out/docs/.folder-publisher'')) \<and>
   ''/out/docs/.folder-publisher'' \<notin> dirs \<lparr>dirs = {''/out''}, files = Map.empty\<rparr> \<and>
   ''/out/docs/.folder-publisher'' \<notin> set (pathPrefixes (dirname ''/out/docs/.folder-publisher'')) \<and>
   (\<exists>fs'. writeJsonFile \<lparr>dirs = {''/out''}, files = Map.empty\<rparr>
            ''/out/docs/.folder-publisher''
            (JObject [(''managedFiles'', JArray [JObject [(''path'', JString (''caf'' @ [CHR 0xE9] @ ''.md'')),
               (''packageName'', JString ''pkg''), (''packageVersion'', JString ''1.0.0''),
               (''force'', JBool False)]])]) = Inr fs' \<and>
          files fs' ''/out/docs/.folder-publisher'' =
            Some (encodeText Utf8
              (''{'' @ [CHR 0x0A] @
               ''  '' @ [CHR 0x22] @ ''managedFiles'' @ [CHR 0x22] @ '': ['' @ [CHR 0x0A] @
               ''    {'' @ [CHR 0x0A] @
               ''      '' @ [CHR 0x22] @ ''path'' @ [CHR 0x22] @ '': '' @
                 [CHR 0x22] @ ''caf'' @ [CHR 0xE9] @ ''.md'' @ [CHR 0x22] @ '','' @ [CHR 0x0A] @
               ''      '' @ [CHR 0x22] @ ''packageName'' @ [CHR 0x22] @ '': '' @
                 [CHR 0x22] @ ''pkg'' @ [CHR 0x22] @ '','' @ [CHR 0x0A] @
               ''      '' @ [CHR 0x22] @ ''packageVersion'' @ [CHR 0x22] @ '': '' @
                 [CHR 0x22] @ ''1.0.0'' @ [CHR 0x22] @ '','' @ [CHR 0x0A] @
               ''      '' @ [CHR 0x22] @ ''force'' @ [CHR 0x22] @ '': false'' @ [CHR 0x0A] @
               ''    }'' @ [CHR 0x0A] @
               ''  ]'' @ [CHR 0x0A] @
               ''}'' @ [CHR 0x0A])) \<and>
          files fs' ''/out/docs/.folder-publisher'' =
            Some
               [123, 10, 32, 32, 34, 109, 97, 110, 97, 103, 101, 100, 70, 105, 108, 101, 115,
               34, 58, 32, 91, 10, 32, 32, 32, 32, 123, 10, 32, 32, 32, 32, 32, 32, 34, 112,
               97, 116, 104, 34, 58, 32, 34, 99, 97, 102, 195, 169, 46, 109, 100, 34, 44, 10,
               32, 32, 32, 32, 32, 32, 34, 112, 97, 99, 107, 97, 103, 101, 78, 97, 109, 101,
               34, 58, 32, 34, 112, 107, 103, 34, 44, 10, 32, 32, 32, 32, 32, 32, 34, 112, 97,
               99, 107, 97, 103, 101, 86, 101, 114, 115, 105, 111, 110, 34, 58, 32, 34, 49, 46,
               48, 46, 48, 34, 44, 10, 32, 32, 32, 32, 32, 32, 34, 102, 111, 114, 99, 101, 34,
               58, 32, 102, 97, 108, 115, 101, 10, 32, 32, 32, 32, 125, 10, 32, 32, 93, 10,
               125, 10] \<and>
          dirs fs' = {''/out'', ''/out/docs''})"
proof -
  let ?fs = "\<lparr>dirs = {''/out''}, files = Map.empty\<rparr>"
  let ?p = "''/out/docs/.folder-publisher''"
  let ?data = "JObject [(''managedFiles'', JArray [JObject [(''path'', JString (''caf'' @ [CHR 0xE9] @ ''.md'')),
               (''packageName'', JString ''pkg''), (''packageVersion'', JString ''1.0.0''),
               (''force'', JBool False)]])]"
  have d: "dirname ?p = ''/out/docs''"
    by code_simp
  have pp: "pathPrefixes ''/out/docs'' = [''/out'', ''/out/docs'']"
    by code_simp
  have h1: "list_all (\<lambda>p. files ?fs p = None) (pathPrefixes (dirname ?p))"
    by (simp add: d pp)
  have h2: "?p \<notin> dirs ?fs"
    by simp
  have h3: "?p \<notin> set (pathPrefixes (dirname ?p))"
    by (simp add: d pp)
  have e: "\<not> existsSync ?fs ''/out/docs''"
    by (simp add: existsSync_def)
  have layout: "JSON_stringify ?data 2 @ [CHR 0x0A] =
               ''{'' @ [CHR 0x0A] @
               ''  '' @ [CHR 0x22] @ ''managedFiles'' @ [CHR 0x22] @ '': ['' @ [CHR 0x0A] @
               ''    {'' @ [CHR 0x0A] @
               ''      '' @ [CHR 0x22] @ ''path'' @ [CHR 0x22] @ '': '' @
                 [CHR 0x22] @ ''caf'' @ [CHR 0xE9] @ ''.md'' @ [CHR 0x22] @ '','' @ [CHR 0x0A] @
               ''      '' @ [CHR 0x22] @ ''packageName'' @ [CHR 0x22] @ '': '' @
                 [CHR 0x22] @ ''pkg'' @ [CHR 0x22] @ '','' @ [CHR 0x0A] @
               ''      '' @ [CHR 0x22] @ ''packageVersion'' @ [CHR 0x22] @ '': '' @
                 [CHR 0x22] @ ''1.0.0'' @ [CHR 0x22] @ '','' @ [CHR 0x0A] @
               ''      '' @ [CHR 0x22] @ ''force'' @ [CHR 0x22] @ '': false'' @ [CHR 0x0A] @
               ''    }'' @ [CHR 0x0A] @
               ''  ]'' @ [CHR 0x0A] @
               ''}'' @ [CHR 0x0A]"
    by code_simp
  have bytes: "encodeText Utf8 (JSON_stringify ?data 2 @ [CHR 0x0A]) =
               [123, 10, 32, 32, 34, 109, 97, 110, 97, 103, 101, 100, 70, 105, 108, 101, 115,
               34, 58, 32, 91, 10, 32, 32, 32, 32, 123, 10, 32, 32, 32, 32, 32, 32, 34, 112,
               97, 116, 104, 34, 58, 32, 34, 99, 97, 102, 195, 169, 46, 109, 100, 34, 44, 10,
               32, 32, 32, 32, 32, 32, 34, 112, 97, 99, 107, 97, 103, 101, 78, 97, 109, 101,
               34, 58, 32, 34, 112, 107, 103, 34, 44, 10, 32, 32, 32, 32, 32, 32, 34, 112, 97,
               99, 107, 97, 103, 101, 86, 101, 114, 115, 105, 111, 110, 34, 58, 32, 34, 49, 46,
               48, 46, 48, 34, 44, 10, 32, 32, 32, 32, 32, 32, 34, 102, 111, 114, 99, 101, 34,
               58, 32, 102, 97, 108, 115, 101, 10, 32, 32, 32, 32, 125, 10, 32, 32, 93, 10,
               125, 10]"
    by code_simp
  obtain fs' where w: "writeJsonFile ?fs ?p ?data = Inr fs'"
    and f: "files fs' ?p = Some (encodeText Utf8 (JSON_stringify ?data 2 @ [CHR 0x0A]))"
    and ds: "dirs fs' = (if existsSync ?fs (dirname ?p) then dirs ?fs
                         else dirs ?fs \<union> set (pathPrefixes (dirname ?p)))"
    using writeJsonFile_saves [OF h1 h2 h3, of ?data] by blast
  have f1: "files fs' ?p = Some (encodeText Utf8 (
               ''{'' @ [CHR 0x0A] @
               ''  '' @ [CHR 0x22] @ ''managedFiles'' @ [CHR 0x22] @ '': ['' @ [CHR 0x0A] @
               ''    {'' @ [CHR 0x0A] @
               ''      '' @ [CHR 0x22] @ ''path'' @ [CHR 0x22] @ '': '' @
                 [CHR 0x22] @ ''caf'' @ [CHR 0xE9] @ ''.md'' @ [CHR 0x22] @ '','' @ [CHR 0x0A] @
               ''      '' @ [CHR 0x22] @ ''packageName'' @ [CHR 0x22] @ '': '' @
                 [CHR 0x22] @ ''pkg'' @ [CHR 0x22] @ '','' @ [CHR 0x0A] @
               ''      '' @ [CHR 0x22] @ ''packageVersion'' @ [CHR 0x22] @ '': '' @
                 [CHR 0x22] @ ''1.0.0'' @ [CHR 0x22] @ '','' @ [CHR 0x0A] @
               ''      '' @ [CHR 0x22] @ ''force'' @ [CHR 0x22] @ '': false'' @ [CHR 0x0A] @
               ''    }'' @ [CHR 0x0A] @
               ''  ]'' @ [CHR 0x0A] @
               ''}'' @ [CHR 0x0A]))"
    using f by (simp only: layout)
  have f2: "files fs' ?p = Some
               [123, 10, 32, 32, 34, 109, 97, 110, 97, 103, 101, 100, 70, 105, 108, 101, 115,
               34, 58, 32, 91, 10, 32, 32, 32, 32, 123, 10, 32, 32, 32, 32, 32, 32, 34, 112,
               97, 116, 104, 34, 58, 32, 34, 99, 97, 102, 195, 169, 46, 109, 100, 34, 44, 10,
               32, 32, 32, 32, 32, 32, 34, 112, 97, 99, 107, 97, 103, 101, 78, 97, 109, 101,
               34, 58, 32, 34, 112, 107, 103, 34, 44, 10, 32, 32, 32, 32, 32, 32, 34, 112, 97,
               99, 107, 97, 103, 101, 86, 101, 114, 115, 105, 111, 110, 34, 58, 32, 34, 49, 46,
               48, 46, 48, 34, 44, 10, 32, 32, 32, 32, 32, 32, 34, 102, 111, 114, 99, 101, 34,
               58, 32, 102, 97, 108, 115, 101, 10, 32, 32, 32, 32, 125, 10, 32, 32, 93, 10,
               125, 10]"
    using f by (simp only: bytes)
  have ds': "dirs fs' = {''/out'', ''/out/docs''}"
    using ds e by (auto simp: d pp)
  show ?thesis
    using h1 h2 h3 w f1 f2 ds' by blast
qed

text \<open>
  C6. Where no marker file is present in the directory, loading yields the empty record.
  Where the marker file exists and \<^verbatim>\<open>JSON.parse\<close> rejects its content, loading fails with
  an error whose message names the marker file, and so does \<^verbatim>\<open>readJsonFile\<close> for any
  file it cannot parse.
\<close>

theorem loadMarker_corrupt_or_absent:
  "(\<not> existsSync fs (markerPath dir) \<longrightarrow> loadMarker parse fs dir = Inr emptyMarker) \<and>
   (files fs (markerPath dir) = Some content \<and> parse content = Inl msg \<longrightarrow>
      loadMarker parse fs dir =
        Inl (Error (''Failed to read JSON file '' @ markerPath dir @ '': '' @ msg))) \<and>
   (files fs filePath = Some content \<and> parse content = Inl msg \<longrightarrow>
      readJsonFile parse fs filePath =
        Inl (Error (''Failed to read JSON file '' @ filePath @ '': '' @ msg)))"
  by (simp add: loadMarker_def readJsonFile_def readFileSync_def existsSync_def)

theorem loadMarker_corrupt_or_absent_witness:
  "\<not> existsSync \<lparr>dirs = {''/out''}, files = [''/out/docs/.folder-publisher'' \<mapsto> encodeText Utf8 ''{oops'']\<rparr>
       (markerPath ''/out'') \<and>
   loadMarker (\<lambda>buffer. if buffer = encodeText Utf8 ''{}'' then Inr (JObject []) else Inl ''SyntaxError: bad JSON'')
     \<lparr>dirs = {''/out''}, files = [''/out/docs/.folder-publisher'' \<mapsto> encodeText Utf8 ''{oops'']\<rparr> ''/out'' =
     Inr emptyMarker \<and>
   loadMarker (\<lambda>buffer. if buffer = encodeText Utf8 ''{}'' then Inr (JObject []) else Inl ''SyntaxError: bad JSON'')
     \<lparr>dirs = {''/out''}, files = [''/out/docs/.folder-publisher'' \<mapsto> encodeText Utf8 ''{oops'']\<rparr> ''/out/docs'' =
     Inl (Error ''Failed to read JSON file /out/docs/.folder-publisher: SyntaxError: bad JSON'')"
proof -
  let ?fs = "\<lparr>dirs = {''/out''}, files = [''/out/docs/.folder-publisher'' \<mapsto> encodeText Utf8 ''{oops'']\<rparr>"
  let ?parse = "\<lambda>buffer. if buffer = encodeText Utf8 ''{}'' then Inr (JObject [])
                        else Inl ''SyntaxError: bad JSON''"
  have m1: "markerPath ''/out'' = ''/out/.folder-publisher''"
    by code_simp
  have m2: "markerPath ''/out/docs'' = ''/out/docs/.folder-publisher''"
    by code_simp
  have a: "\<not> existsSync ?fs (markerPath ''/out'')"
    by (simp add: m1 existsSync_def)
  have b: "files ?fs (markerPath ''/out/docs'') = Some (encodeText Utf8 ''{oops'')"
    by (simp add: m2)
  have ne: "encodeText Utf8 ''{oops'' \<noteq> encodeText Utf8 ''{}''"
    by code_simp
  have c: "?parse (encodeText Utf8 ''{oops'') = Inl ''SyntaxError: bad JSON''"
    using ne by simp
  show ?thesis
    using a b c
      loadMarker_corrupt_or_absent [of ?fs "''/out''" ?parse "encodeText Utf8 ''{oops''"
        "''SyntaxError: bad JSON''" "''x''"]
      loadMarker_corrupt_or_absent [of ?fs "''/out/docs''" ?parse "encodeText Utf8 ''{oops''"
        "''SyntaxError: bad JSON''" "''x''"]
    by (simp add: m1 m2)
qed


section \<open>The synchronisation engine: properties\<close>

lemma load_save_same: "load (save t dir entries) dir = Inr entries"
  by (simp add: load_def save_def update_conv')

lemma load_save_other: "d \<noteq> dir \<Longrightarrow> load (save t dir entries) d = load t d"
  by (simp add: load_def save_def update_conv')

lemma disk_save: "disk (save t dir entries) = disk t"
  by (simp add: save_def)

lemma keys_save: "fst ` set (markers (save t dir entries)) = insert dir (fst ` set (markers t))"
  by (simp add: save_def dom_update)

lemma load_disk_update: "load (t\<lparr>disk := x, readOnly := y\<rparr>) d = load t d"
  by (simp add: load_def)

lemma isManaged_filter:
  "isManaged entries n (Some p) = (filter (\<lambda>e. path e = n \<and> packageName e = p) entries \<noteq> [])"
  by (auto simp: isManaged_def list_ex_iff filter_empty_conv)

lemma replace_other:
  "\<not> (path entry = n \<and> packageName entry = p) \<Longrightarrow>
   filter (\<lambda>e. path e = n \<and> packageName e = p)
     (map (\<lambda>e. if sameKey entry e then entry else e) entries) =
   filter (\<lambda>e. path e = n \<and> packageName e = p) entries"
  by (induction entries) (auto simp: sameKey_def)

lemma upsert_other:
  "\<not> (path entry = n \<and> packageName entry = p) \<Longrightarrow>
   filter (\<lambda>e. path e = n \<and> packageName e = p) (upsert entries entry) =
   filter (\<lambda>e. path e = n \<and> packageName e = p) entries"
  by (simp add: upsert_def replace_other)

lemma upsert_fresh:
  "\<not> isManaged entries (path entry) (Some (packageName entry)) \<Longrightarrow>
   filter (\<lambda>e. path e = path entry \<and> packageName e = packageName entry) (upsert entries entry) =
   [entry]"
  by (auto simp: upsert_def isManaged_def sameKey_def list_ex_iff filter_empty_conv)

lemma upsert_managed:
  "filter (\<lambda>e. path e = path entry \<and> packageName e = packageName entry) (upsert entries entry) \<noteq> []"
  by (auto simp: upsert_def sameKey_def list_ex_iff filter_empty_conv)

lemma dest_key_inj:
  "d \<noteq> [] \<Longrightarrow> d' \<noteq> [] \<Longrightarrow> butlast d = butlast d' \<Longrightarrow> entryName d = entryName d' \<Longrightarrow> d = d'"
  by (metis append_butlast_last_id entryName_def)

lemma disk_writeManaged:
  "disk (writeManaged pkg destPath content entries forced t) = (disk t)(destPath \<mapsto> content)"
  by (simp add: writeManaged_def save_def)

lemma load_writeManaged_same:
  "load (writeManaged pkg destPath content entries forced t) (butlast destPath) =
     Inr (upsert entries \<lparr>path = entryName destPath, packageName = pkgName pkg,
                         packageVersion = pkgVersion pkg, force = forced\<rparr>)"
  by (simp add: writeManaged_def load_save_same)

lemma load_writeManaged_other:
  "d \<noteq> butlast destPath \<Longrightarrow> load (writeManaged pkg destPath content entries forced t) d = load t d"
  by (simp add: writeManaged_def load_save_other load_disk_update)

lemma managedEntries_writeManaged_other:
  assumes "d \<noteq> destPath" "d \<noteq> []" "destPath \<noteq> []" "load t (butlast destPath) = Inr entries"
  shows "managedEntries (writeManaged pkg destPath content entries forced t) d n = managedEntries t d n"
proof (cases "butlast d = butlast destPath")
  case True
  then have "entryName d \<noteq> entryName destPath"
    using assms dest_key_inj by blast
  then show ?thesis
    using True assms(4)
    by (simp add: managedEntries_def load_writeManaged_same upsert_other)
next
  case False
  then show ?thesis
    by (simp add: managedEntries_def load_writeManaged_other)
qed

lemma processFile_other:
  assumes "processFile digest opts pkg outputDir file ch t = (r, t')"
    and "d \<noteq> outputDir @ fst file" "d \<noteq> []" "outputDir @ fst file \<noteq> []"
  shows "disk t' d = disk t d \<and> managedEntries t' d n = managedEntries t d n"
proof (cases "load t (butlast (outputDir @ fst file))")
  case (Inl e)
  then show ?thesis
    using assms(1) by (simp add: processFile_def)
next
  case (Inr entries)
  have w: "\<And>forced. disk (writeManaged pkg (outputDir @ fst file) (snd file) entries forced t) d = disk t d \<and>
      managedEntries (writeManaged pkg (outputDir @ fst file) (snd file) entries forced t) d n =
        managedEntries t d n"
    using assms(2-4) Inr
    by (simp add: disk_writeManaged managedEntries_writeManaged_other)
  show ?thesis
    using assms(1) Inr w
    by (auto simp: processFile_def Let_def split: option.splits if_splits)
qed

lemma walk_other:
  assumes "walk digest opts pkg outputDir cands ch t = (r, t')"
    and "d \<notin> set (map (\<lambda>f. outputDir @ fst f) cands)" "d \<noteq> []"
    and "[] \<notin> set (map fst cands)"
  shows "disk t' d = disk t d \<and> managedEntries t' d n = managedEntries t d n"
  using assms
proof (induction cands arbitrary: ch t)
  case Nil
  then show ?case by simp
next
  case (Cons cand rest)
  obtain r1 t1 where p: "processFile digest opts pkg outputDir cand ch t = (r1, t1)"
    by (cases "processFile digest opts pkg outputDir cand ch t")
  have ne: "outputDir @ fst cand \<noteq> []"
    using Cons.prems(4) by auto
  have d1: "d \<noteq> outputDir @ fst cand"
    using Cons.prems(2) by auto
  have step: "disk t1 d = disk t d \<and> managedEntries t1 d n = managedEntries t d n"
    using processFile_other [OF p d1 Cons.prems(3) ne] .
  show ?case
  proof (cases r1)
    case (Inl e)
    then show ?thesis
      using Cons.prems(1) p step by simp
  next
    case (Inr ch1)
    then have "walk digest opts pkg outputDir rest ch1 t1 = (r, t')"
      using Cons.prems(1) p by simp
    from Cons.IH [OF this] Cons.prems(2,3,4) step
    show ?thesis by simp
  qed
qed

lemma walk_append:
  "walk digest opts pkg outputDir (pre @ post) ch t =
     (case walk digest opts pkg outputDir pre ch t of
        (Inl e, t') \<Rightarrow> (Inl e, t')
      | (Inr ch', t') \<Rightarrow> walk digest opts pkg outputDir post ch' t')"
  by (induction pre arbitrary: ch t) (auto split: prod.splits sum.splits)

lemma load_removeFiles: "load (removeFiles gone t) d = load t d"
  by (simp add: load_def removeFiles_def)

lemma orphan_not_candidate:
  "d \<in> set destPaths \<Longrightarrow>
   d \<notin> set (map (\<lambda>e. dir @ [path e]) (filter (isOrphan pkg destPaths dir) entries))"
  by (auto simp: isOrphan_def)

lemma candidate_entries_kept:
  assumes "d \<in> set destPaths" "d \<noteq> []"
  shows "filter (\<lambda>e. path e = entryName d \<and> packageName e = n)
           (filter (\<lambda>e. \<not> isOrphan pkg destPaths (butlast d) e) entries) =
         filter (\<lambda>e. path e = entryName d \<and> packageName e = n) entries"
proof -
  have "\<And>e. path e = entryName d \<Longrightarrow> \<not> isOrphan pkg destPaths (butlast d) e"
    using assms by (simp add: isOrphan_def entryName_def)
  then show ?thesis
    by (induction entries) auto
qed

lemma cleanup_step_keeps:
  assumes "d \<in> set destPaths" "d \<noteq> []" "load t dir = Inr entries"
  shows "disk (save (removeFiles (map (\<lambda>e. dir @ [path e])
                 (filter (isOrphan pkg destPaths dir) entries)) t) dir
               (filter (\<lambda>e. \<not> isOrphan pkg destPaths dir e) entries)) d = disk t d \<and>
         managedEntries (save (removeFiles (map (\<lambda>e. dir @ [path e])
                 (filter (isOrphan pkg destPaths dir) entries)) t) dir
               (filter (\<lambda>e. \<not> isOrphan pkg destPaths dir e) entries)) d n =
           managedEntries t d n"
proof -
  have a: "d \<notin> set (map (\<lambda>e. dir @ [path e]) (filter (isOrphan pkg destPaths dir) entries))"
    using assms(1) by (rule orphan_not_candidate)
  have disk: "disk (save (removeFiles (map (\<lambda>e. dir @ [path e])
                 (filter (isOrphan pkg destPaths dir) entries)) t) dir
               (filter (\<lambda>e. \<not> isOrphan pkg destPaths dir e) entries)) d = disk t d"
    using a by (simp add: disk_save removeFiles_def)
  show ?thesis
  proof (cases "butlast d = dir")
    case True
    then show ?thesis
      using disk assms candidate_entries_kept [OF assms(1,2), of n pkg entries]
      by (simp add: managedEntries_def load_save_same)
  next
    case False
    then show ?thesis
      using disk by (simp add: managedEntries_def load_save_other load_removeFiles)
  qed
qed

lemma cleanup_keeps_candidates:
  assumes "cleanup opts pkg outputDir destPaths dirList ch t = (r, t')"
    and "d \<in> set destPaths" "d \<noteq> []"
  shows "disk t' d = disk t d \<and> managedEntries t' d n = managedEntries t d n"
  using assms(1)
proof (induction dirList arbitrary: ch t)
  case Nil
  then show ?case by simp
next
  case (Cons dir rest)
  show ?case
  proof (cases "prefix outputDir dir")
    case False
    then show ?thesis
      using Cons by simp
  next
    case True
    show ?thesis
    proof (cases "load t dir")
      case (Inl e)
      then show ?thesis
        using Cons.prems True by simp
    next
      case (Inr entries)
      let ?orphans = "filter (isOrphan pkg destPaths dir) entries"
      let ?gone = "map (\<lambda>e. dir @ [path e]) ?orphans"
      let ?t1 = "if dryRun opts \<or> ?orphans = [] then t
                 else save (removeFiles ?gone t) dir
                        (filter (\<lambda>e. \<not> isOrphan pkg destPaths dir e) entries)"
      have rest: "cleanup opts pkg outputDir destPaths rest (ch\<lparr>deleted := deleted ch @ ?gone\<rparr>) ?t1 =
          (r, t')"
        using Cons.prems True Inr by (simp add: Let_def)
      have step: "disk ?t1 d = disk t d \<and> managedEntries ?t1 d n = managedEntries t d n"
        using cleanup_step_keeps [OF assms(2,3) Inr, of pkg n] by simp
      from Cons.IH [OF rest] step show ?thesis
        by simp
    qed
  qed
qed

lemma processFile_conflict:
  assumes "disk t (outputDir @ p) = Some existing"
    and "managedEntries t (outputDir @ p) (pkgName pkg) = Some []"
    and "\<not> allowConflicts opts"
  shows "\<exists>own. processFile digest opts pkg outputDir (p, c) ch t =
           (Inl (FileConflict (outputDir @ p) own), t)"
proof -
  obtain entries where l: "load t (butlast (outputDir @ p)) = Inr entries"
    and f: "filter (\<lambda>e. path e = entryName (outputDir @ p) \<and> packageName e = pkgName pkg) entries = []"
    using assms(2) by (auto simp: managedEntries_def split: sum.splits)
  have "\<not> isManaged entries (entryName (outputDir @ p)) (Some (pkgName pkg))"
    using f by (simp add: isManaged_filter)
  then show ?thesis
    using l assms(1,3) by (simp add: processFile_def Let_def)
qed

lemma processFile_forced:
  assumes "disk t (outputDir @ p) = Some existing"
    and "managedEntries t (outputDir @ p) (pkgName pkg) = Some []"
    and "allowConflicts opts" "\<not> dryRun opts"
  shows "\<exists>ch' t'. processFile digest opts pkg outputDir (p, c) ch t = (Inr ch', t') \<and>
           disk t' (outputDir @ p) = Some c \<and>
           managedEntries t' (outputDir @ p) (pkgName pkg) =
             Some [\<lparr>path = entryName (outputDir @ p), packageName = pkgName pkg,
                    packageVersion = pkgVersion pkg, force = True\<rparr>]"
proof -
  obtain entries where l: "load t (butlast (outputDir @ p)) = Inr entries"
    and f: "filter (\<lambda>e. path e = entryName (outputDir @ p) \<and> packageName e = pkgName pkg) entries = []"
    using assms(2) by (auto simp: managedEntries_def split: sum.splits)
  have nm: "\<not> isManaged entries (entryName (outputDir @ p)) (Some (pkgName pkg))"
    using f by (simp add: isManaged_filter)
  let ?e = "\<lparr>path = entryName (outputDir @ p), packageName = pkgName pkg,
             packageVersion = pkgVersion pkg, force = True\<rparr>"
  have "filter (\<lambda>e. path e = path ?e \<and> packageName e = packageName ?e) (upsert entries ?e) = [?e]"
    by (rule upsert_fresh) (use nm in simp)
  then have m: "managedEntries (writeManaged pkg (outputDir @ p) c entries True t) (outputDir @ p)
      (pkgName pkg) = Some [?e]"
    by (simp add: managedEntries_def load_writeManaged_same)
  show ?thesis
    using l assms(1,3,4) nm m by (simp add: processFile_def Let_def disk_writeManaged)
qed

text \<open>
  C1. Let a candidate file's destination be occupied, before the extraction, by a file that
  the marker of its directory does not list for the extracting package, and let the files
  before it in the walk be processed without error (the candidate files have distinct,
  non-empty paths). With \<open>allowConflicts\<close> false the extraction fails with a FileConflict
  that names the destination, and the tree is left as it was when the conflict was met: no
  write follows, and the occupying file is untouched. With \<open>allowConflicts\<close> true (and no
  dry run) the destination holds the content of the package's file when the extraction
  ends, and the marker's only entry for the path and the package has \<open>force\<close> true.
\<close>

theorem extract_conflict_policy:
  assumes "candidateFiles opts pkg = pre @ (p, c) # post"
    and "distinct (map fst (candidateFiles opts pkg))"
    and "[] \<notin> set (map fst (candidateFiles opts pkg))"
    and "walk digest opts pkg outputDir pre noChanges t = (Inr ch1, t1)"
    and "disk t (outputDir @ p) = Some existing"
    and "managedEntries t (outputDir @ p) (pkgName pkg) = Some []"
  shows "(\<not> allowConflicts opts \<longrightarrow>
            (\<exists>own. extractPackage digest opts pkg outputDir t =
                     (Inl (FileConflict (outputDir @ p) own), t1)) \<and>
            disk t1 (outputDir @ p) = Some existing) \<and>
         (allowConflicts opts \<and> \<not> dryRun opts \<longrightarrow>
            disk (snd (extractPackage digest opts pkg outputDir t)) (outputDir @ p) = Some c \<and>
            managedEntries (snd (extractPackage digest opts pkg outputDir t)) (outputDir @ p)
              (pkgName pkg) =
              Some [\<lparr>path = entryName (outputDir @ p), packageName = pkgName pkg,
                     packageVersion = pkgVersion pkg, force = True\<rparr>])"
proof -
  let ?d = "outputDir @ p"
  have pne: "p \<noteq> []" and dne: "?d \<noteq> []"
    using assms(1,3) by auto
  have "p \<notin> set (map fst pre)" "p \<notin> set (map fst post)"
    using assms(1,2) by auto
  then have notpre: "?d \<notin> set (map (\<lambda>f. outputDir @ fst f) pre)"
    and notpost: "?d \<notin> set (map (\<lambda>f. outputDir @ fst f) post)"
    by auto
  have nepre: "[] \<notin> set (map fst pre)" and nepost: "[] \<notin> set (map fst post)"
    using assms(1,3) by auto
  from walk_other [OF assms(4) notpre dne nepre, of "pkgName pkg"]
  have occ1: "disk t1 ?d = Some existing"
    and unm1: "managedEntries t1 ?d (pkgName pkg) = Some []"
    using assms(5,6) by simp_all
  have w: "walk digest opts pkg outputDir (candidateFiles opts pkg) noChanges t =
      (case processFile digest opts pkg outputDir (p, c) ch1 t1 of
         (Inl e, t') \<Rightarrow> (Inl e, t')
       | (Inr ch', t') \<Rightarrow> walk digest opts pkg outputDir post ch' t')"
    using assms(4) by (simp add: assms(1) walk_append)
  show ?thesis
  proof (intro conjI impI)
    assume na: "\<not> allowConflicts opts"
    from processFile_conflict [OF occ1 unm1 na, of digest c ch1]
    obtain own where "processFile digest opts pkg outputDir (p, c) ch1 t1 =
        (Inl (FileConflict ?d own), t1)"
      by blast
    then have "extractPackage digest opts pkg outputDir t = (Inl (FileConflict ?d own), t1)"
      using w by (simp add: extractPackage_def)
    then show "\<exists>own. extractPackage digest opts pkg outputDir t =
        (Inl (FileConflict ?d own), t1)"
      by blast
  next
    assume "\<not> allowConflicts opts"
    show "disk t1 ?d = Some existing"
      by (rule occ1)
  next
    assume a: "allowConflicts opts \<and> \<not> dryRun opts"
    let ?e = "\<lparr>path = entryName ?d, packageName = pkgName pkg,
               packageVersion = pkgVersion pkg, force = True\<rparr>"
    from processFile_forced [OF occ1 unm1, of opts digest c ch1] a
    obtain ch2 t2 where p2: "processFile digest opts pkg outputDir (p, c) ch1 t1 = (Inr ch2, t2)"
      and d2: "disk t2 ?d = Some c"
      and m2: "managedEntries t2 ?d (pkgName pkg) = Some [?e]"
      by blast
    obtain r3 t3 where w3: "walk digest opts pkg outputDir post ch2 t2 = (r3, t3)"
      by (cases "walk digest opts pkg outputDir post ch2 t2")
    from walk_other [OF w3 notpost dne nepost, of "pkgName pkg"]
    have d3: "disk t3 ?d = Some c" and m3: "managedEntries t3 ?d (pkgName pkg) = Some [?e]"
      using d2 m2 by simp_all
    have w': "walk digest opts pkg outputDir (candidateFiles opts pkg) noChanges t = (r3, t3)"
      using w p2 w3 by simp
    have fin: "disk (snd (extractPackage digest opts pkg outputDir t)) ?d = Some c \<and>
        managedEntries (snd (extractPackage digest opts pkg outputDir t)) ?d (pkgName pkg) = Some [?e]"
    proof (cases r3)
      case (Inl e)
      then show ?thesis
        using w' d3 m3 by (simp add: extractPackage_def)
    next
      case (Inr ch3)
      let ?dests = "map (\<lambda>f. outputDir @ fst f) (candidateFiles opts pkg)"
      obtain r4 t4 where c4: "cleanup opts pkg outputDir ?dests
          (remdups (map fst (markers t3))) ch3 t3 = (r4, t4)"
        by (cases "cleanup opts pkg outputDir ?dests (remdups (map fst (markers t3))) ch3 t3")
      have mem: "?d \<in> set ?dests"
        by (simp add: assms(1))
      from cleanup_keeps_candidates [OF c4 mem dne, of "pkgName pkg"]
      have "disk t4 ?d = Some c" "managedEntries t4 ?d (pkgName pkg) = Some [?e]"
        using d3 m3 by simp_all
      then show ?thesis
        using w' Inr c4 by (simp add: extractPackage_def)
    qed
    show "disk (snd (extractPackage digest opts pkg outputDir t)) ?d = Some c"
      using fin by blast
    show "managedEntries (snd (extractPackage digest opts pkg outputDir t)) ?d (pkgName pkg) =
        Some [?e]"
      using fin by blast
  qed
qed

theorem extract_conflict_policy_witness:
  "candidateFiles \<lparr>allowConflicts = False, dryRun = False, shouldAccept = (\<lambda>p. True)\<rparr>
     \<lparr>pkgName = ''test-conflict-package'', pkgVersion = ''1.0.0'',
      sourceFiles = [([''docs'', ''guide.md''], ''# Guide''), ([''config.md''], ''# Config'')]\<rparr> =
     [([''docs'', ''guide.md''], ''# Guide'')] @ ([''config.md''], ''# Config'') # [] \<and>
   disk \<lparr>disk = [[''output'', ''config.md''] \<mapsto> ''existing unmanaged content''],
         readOnly = {}, markers = []\<rparr> ([''output''] @ [''config.md'']) =
     Some ''existing unmanaged content'' \<and>
   managedEntries \<lparr>disk = [[''output'', ''config.md''] \<mapsto> ''existing unmanaged content''],
         readOnly = {}, markers = []\<rparr> ([''output''] @ [''config.md'']) ''test-conflict-package'' =
     Some [] \<and>
   fst (extractPackage id \<lparr>allowConflicts = False, dryRun = False, shouldAccept = (\<lambda>p. True)\<rparr>
     \<lparr>pkgName = ''test-conflict-package'', pkgVersion = ''1.0.0'',
      sourceFiles = [([''docs'', ''guide.md''], ''# Guide''), ([''config.md''], ''# Config'')]\<rparr>
     [''output'']
     \<lparr>disk = [[''output'', ''config.md''] \<mapsto> ''existing unmanaged content''],
      readOnly = {}, markers = []\<rparr>) =
     Inl (FileConflict [''output'', ''config.md''] None) \<and>
   disk (snd (extractPackage id
     \<lparr>allowConflicts = False, dryRun = False, shouldAccept = (\<lambda>p. True)\<rparr>
     \<lparr>pkgName = ''test-conflict-package'', pkgVersion = ''1.0.0'',
      sourceFiles = [([''docs'', ''guide.md''], ''# Guide''), ([''config.md''], ''# Config'')]\<rparr>
     [''output'']
     \<lparr>disk = [[''output'', ''config.md''] \<mapsto> ''existing unmanaged content''],
      readOnly = {}, markers = []\<rparr>)) [''output'', ''config.md''] =
     Some ''existing unmanaged content'' \<and>
   disk (snd (extractPackage id
     \<lparr>allowConflicts = True, dryRun = False, shouldAccept = (\<lambda>p. True)\<rparr>
     \<lparr>pkgName = ''test-conflict-package'', pkgVersion = ''1.0.0'',
      sourceFiles = [([''docs'', ''guide.md''], ''# Guide''), ([''config.md''], ''# Config'')]\<rparr>
     [''output'']
     \<lparr>disk = [[''output'', ''config.md''] \<mapsto> ''existing unmanaged content''],
      readOnly = {}, markers = []\<rparr>)) [''output'', ''config.md''] = Some ''# Config'' \<and>
   managedEntries (snd (extractPackage id
     \<lparr>allowConflicts = True, dryRun = False, shouldAccept = (\<lambda>p. True)\<rparr>
     \<lparr>pkgName = ''test-conflict-package'', pkgVersion = ''1.0.0'',
      sourceFiles = [([''docs'', ''guide.md''], ''# Guide''), ([''config.md''], ''# Config'')]\<rparr>
     [''output'']
     \<lparr>disk = [[''output'', ''config.md''] \<mapsto> ''existing unmanaged content''],
      readOnly = {}, markers = []\<rparr>)) [''output'', ''config.md''] ''test-conflict-package'' =
     Some [\<lparr>path = ''config.md'', packageName = ''test-conflict-package'',
            packageVersion = ''1.0.0'', force = True\<rparr>]"
proof -
  let ?pkg = "\<lparr>pkgName = ''test-conflict-package'', pkgVersion = ''1.0.0'',
      sourceFiles = [([''docs'', ''guide.md''], ''# Guide''), ([''config.md''], ''# Config'')]\<rparr>"
  let ?no = "\<lparr>allowConflicts = False, dryRun = False, shouldAccept = (\<lambda>p. True)\<rparr>"
  let ?yes = "\<lparr>allowConflicts = True, dryRun = False, shouldAccept = (\<lambda>p. True)\<rparr>"
  let ?t = "\<lparr>disk = [[''output'', ''config.md''] \<mapsto> ''existing unmanaged content''],
      readOnly = {}, markers = []\<rparr>"
  let ?pre = "[([''docs'', ''guide.md''], ''# Guide'')]"
  let ?ch1 = "\<lparr>added = [[''output'', ''docs'', ''guide.md'']], modified = [],
              deleted = [], skipped = []\<rparr>"
  have c1: "candidateFiles ?no ?pkg = ?pre @ ([''config.md''], ''# Config'') # []"
    by (simp add: candidateFiles_def)
  have c2: "candidateFiles ?yes ?pkg = ?pre @ ([''config.md''], ''# Config'') # []"
    by (simp add: candidateFiles_def)
  have d1: "distinct (map fst (candidateFiles ?no ?pkg))"
    and d2: "distinct (map fst (candidateFiles ?yes ?pkg))"
    by (simp_all add: candidateFiles_def)
  have n1: "[] \<notin> set (map fst (candidateFiles ?no ?pkg))"
    and n2: "[] \<notin> set (map fst (candidateFiles ?yes ?pkg))"
    by (simp_all add: candidateFiles_def)
  have "fst (walk id ?no ?pkg [''output''] ?pre noChanges ?t) = Inr ?ch1"
    by code_simp
  then have w1: "walk id ?no ?pkg [''output''] ?pre noChanges ?t =
      (Inr ?ch1, snd (walk id ?no ?pkg [''output''] ?pre noChanges ?t))"
    by (metis prod.collapse)
  have "fst (walk id ?yes ?pkg [''output''] ?pre noChanges ?t) = Inr ?ch1"
    by code_simp
  then have w2: "walk id ?yes ?pkg [''output''] ?pre noChanges ?t =
      (Inr ?ch1, snd (walk id ?yes ?pkg [''output''] ?pre noChanges ?t))"
    by (metis prod.collapse)
  have occ: "disk ?t ([''output''] @ [''config.md'']) = Some ''existing unmanaged content''"
    by simp
  have unm: "managedEntries ?t ([''output''] @ [''config.md'']) (pkgName ?pkg) = Some []"
    by (simp add: managedEntries_def load_def)
  note no = extract_conflict_policy [OF c1 d1 n1 w1 occ unm]
  note yes = extract_conflict_policy [OF c2 d2 n2 w2 occ unm]
  have a: "\<exists>own. extractPackage id ?no ?pkg [''output''] ?t =
      (Inl (FileConflict ([''output''] @ [''config.md'']) own),
       snd (walk id ?no ?pkg [''output''] ?pre noChanges ?t))"
    using no by simp
  have own: "fst (extractPackage id ?no ?pkg [''output''] ?t) =
      Inl (FileConflict [''output'', ''config.md''] None)"
    by code_simp
  have b: "disk (snd (extractPackage id ?no ?pkg [''output''] ?t)) [''output'', ''config.md''] =
      Some ''existing unmanaged content''"
    using a no by auto
  have y: "disk (snd (extractPackage id ?yes ?pkg [''output''] ?t)) [''output'', ''config.md''] =
        Some ''# Config'' \<and>
      managedEntries (snd (extractPackage id ?yes ?pkg [''output''] ?t))
        [''output'', ''config.md''] ''test-conflict-package'' =
        Some [\<lparr>path = ''config.md'', packageName = ''test-conflict-package'',
               packageVersion = ''1.0.0'', force = True\<rparr>]"
    using yes by (simp add: entryName_def)
  show ?thesis
    using c1 occ unm own b y by simp
qed

lemma inPlace_cong:
  "disk t' (outputDir @ fst cand) = disk t (outputDir @ fst cand) \<and>
   managedEntries t' (outputDir @ fst cand) (pkgName pkg) =
     managedEntries t (outputDir @ fst cand) (pkgName pkg) \<Longrightarrow>
   inPlace digest pkg outputDir t' cand = inPlace digest pkg outputDir t cand"
  by (simp add: inPlace_def)

lemma managedEntries_written:
  "\<exists>es. managedEntries (writeManaged pkg destPath content entries forced t) destPath (pkgName pkg) =
          Some es \<and> es \<noteq> []"
  using upsert_managed [of "\<lparr>path = entryName destPath, packageName = pkgName pkg,
      packageVersion = pkgVersion pkg, force = forced\<rparr>" entries]
  by (simp add: managedEntries_def load_writeManaged_same)

lemma inPlace_written:
  "inPlace digest pkg outputDir
     (writeManaged pkg (outputDir @ fst cand) (snd cand) entries forced t) cand"
  using managedEntries_written [of pkg "outputDir @ fst cand" "snd cand" entries forced t]
  by (auto simp: inPlace_def disk_writeManaged)

lemma processFile_puts_in_place:
  assumes "processFile digest opts pkg outputDir cand ch t = (Inr ch', t')"
    and "\<not> dryRun opts"
  shows "inPlace digest pkg outputDir t' cand"
proof (cases "load t (butlast (outputDir @ fst cand))")
  case (Inl e)
  then show ?thesis
    using assms(1) by (simp add: processFile_def)
next
  case (Inr entries)
  show ?thesis
  proof (cases "disk t (outputDir @ fst cand)")
    case None
    then show ?thesis
      using assms Inr inPlace_written [of digest pkg outputDir cand entries False t]
      by (auto simp: processFile_def Let_def)
  next
    case (Some existing)
    show ?thesis
    proof (cases "isManaged entries (entryName (outputDir @ fst cand)) (Some (pkgName pkg))")
      case True
      show ?thesis
      proof (cases "digest existing = digest (snd cand)")
        case True
        have "t' = t"
          using assms Inr Some \<open>isManaged entries (entryName (outputDir @ fst cand)) (Some (pkgName pkg))\<close> True
          by (auto simp: processFile_def Let_def)
        moreover have "inPlace digest pkg outputDir t cand"
          using Inr Some True \<open>isManaged entries (entryName (outputDir @ fst cand)) (Some (pkgName pkg))\<close>
          by (simp add: inPlace_def managedEntries_def isManaged_filter)
        ultimately show ?thesis by simp
      next
        case False
        then show ?thesis
          using assms Inr Some True inPlace_written [of digest pkg outputDir cand entries False t]
          by (auto simp: processFile_def Let_def)
      qed
    next
      case False
      then show ?thesis
        using assms Inr Some inPlace_written [of digest pkg outputDir cand entries True t]
        by (auto simp: processFile_def Let_def split: if_splits)
    qed
  qed
qed

lemma walk_puts_in_place:
  assumes "walk digest opts pkg outputDir cands ch t = (Inr ch', t')"
    and "\<not> dryRun opts"
    and "distinct (map fst cands)" "[] \<notin> set (map fst cands)"
  shows "\<forall>cand \<in> set cands. inPlace digest pkg outputDir t' cand"
  using assms(1,3,4)
proof (induction cands arbitrary: ch t)
  case Nil
  then show ?case by simp
next
  case (Cons cand rest)
  obtain r1 t1 where p: "processFile digest opts pkg outputDir cand ch t = (r1, t1)"
    by (cases "processFile digest opts pkg outputDir cand ch t")
  then obtain ch1 where r1: "r1 = Inr ch1"
    using Cons.prems(1) by (cases r1) auto
  have w: "walk digest opts pkg outputDir rest ch1 t1 = (Inr ch', t')"
    using Cons.prems(1) p r1 by simp
  have here: "inPlace digest pkg outputDir t1 cand"
    using processFile_puts_in_place [OF p [unfolded r1] assms(2)] .
  have "fst cand \<notin> set (map fst rest)"
    using Cons.prems(2) by simp
  then have nd: "outputDir @ fst cand \<notin> set (map (\<lambda>f. outputDir @ fst f) rest)"
    by auto
  have ne: "outputDir @ fst cand \<noteq> []" and ner: "[] \<notin> set (map fst rest)"
    using Cons.prems(3) by auto
  have "inPlace digest pkg outputDir t' cand"
    using walk_other [OF w nd ne ner, of "pkgName pkg"] here inPlace_cong by blast
  moreover have "\<forall>c \<in> set rest. inPlace digest pkg outputDir t' c"
    using Cons.IH [OF w] Cons.prems(2) ner by simp
  ultimately show ?case by simp
qed

lemma cleanup_keeps_in_place:
  assumes "cleanup opts pkg outputDir (map (\<lambda>f. outputDir @ fst f) cands) dirList ch t = (r, t')"
    and "[] \<notin> set (map fst cands)"
    and "\<forall>cand \<in> set cands. inPlace digest pkg outputDir t cand"
  shows "\<forall>cand \<in> set cands. inPlace digest pkg outputDir t' cand"
proof
  fix cand assume c: "cand \<in> set cands"
  then have mem: "outputDir @ fst cand \<in> set (map (\<lambda>f. outputDir @ fst f) cands)"
    by auto
  have "fst cand \<in> set (map fst cands)"
    using c by simp
  then have ne: "outputDir @ fst cand \<noteq> []"
    using assms(2) by (metis append_is_Nil_conv)
  show "inPlace digest pkg outputDir t' cand"
    using cleanup_keeps_candidates [OF assms(1) mem ne, of "pkgName pkg"] assms(3) c inPlace_cong
    by blast
qed

lemma tidy_step:
  assumes "load t dir = Inr entries" "prefix outputDir dir"
  shows "tidy pkg outputDir destPaths
           (if dryRun opts \<or> filter (isOrphan pkg destPaths dir) entries = [] then t
            else save (removeFiles (map (\<lambda>e. dir @ [path e])
                        (filter (isOrphan pkg destPaths dir) entries)) t) dir
                   (filter (\<lambda>e. \<not> isOrphan pkg destPaths dir e) entries)) dir
         \<or> dryRun opts"
  using assms by (auto simp: tidy_def load_save_same filter_empty_conv)

lemma load_step_other:
  "d \<noteq> dir \<Longrightarrow>
   load (if b then t else save (removeFiles gone t) dir entries) d = load t d"
  by (simp add: load_save_other load_removeFiles)

lemma tidy_cong: "load t' dir = load t dir \<Longrightarrow> tidy pkg outputDir destPaths t' dir = tidy pkg outputDir destPaths t dir"
  by (simp add: tidy_def)

lemma keys_step:
  "fst ` set (markers (if b then t else save (removeFiles gone t) dir entries)) \<subseteq>
   insert dir (fst ` set (markers t))"
  by (auto simp: keys_save removeFiles_def)

lemma cleanup_tidies:
  assumes "cleanup opts pkg outputDir destPaths dirList ch t = (Inr ch', t')"
    and "\<not> dryRun opts"
  shows "(\<forall>dir \<in> set dirList. tidy pkg outputDir destPaths t' dir) \<and>
         (\<forall>dir. dir \<notin> set dirList \<longrightarrow> load t' dir = load t dir) \<and>
         fst ` set (markers t') \<subseteq> fst ` set (markers t) \<union> set dirList"
  using assms(1)
proof (induction dirList arbitrary: ch t)
  case Nil
  then show ?case by simp
next
  case (Cons dir rest)
  show ?case
  proof (cases "prefix outputDir dir")
    case False
    then have r: "cleanup opts pkg outputDir destPaths rest ch t = (Inr ch', t')"
      using Cons.prems by simp
    have "tidy pkg outputDir destPaths t' dir"
      using False by (simp add: tidy_def)
    then show ?thesis
      using Cons.IH [OF r] by auto
  next
    case True
    obtain entries where l: "load t dir = Inr entries"
      using Cons.prems True by (cases "load t dir") auto
    let ?orphans = "filter (isOrphan pkg destPaths dir) entries"
    let ?gone = "map (\<lambda>e. dir @ [path e]) ?orphans"
    let ?t1 = "if dryRun opts \<or> ?orphans = [] then t
               else save (removeFiles ?gone t) dir
                      (filter (\<lambda>e. \<not> isOrphan pkg destPaths dir e) entries)"
    have r: "cleanup opts pkg outputDir destPaths rest (ch\<lparr>deleted := deleted ch @ ?gone\<rparr>) ?t1 =
        (Inr ch', t')"
      using Cons.prems True l by (simp add: Let_def)
    note ih = Cons.IH [OF r]
    have t1: "tidy pkg outputDir destPaths ?t1 dir"
      using tidy_step [OF l True, of pkg destPaths opts] assms(2) by blast
    have other: "\<And>d. d \<noteq> dir \<Longrightarrow> load ?t1 d = load t d"
      by (rule load_step_other)
    have keys: "fst ` set (markers ?t1) \<subseteq> insert dir (fst ` set (markers t))"
      by (rule keys_step)
    have a: "tidy pkg outputDir destPaths t' dir"
    proof (cases "dir \<in> set rest")
      case True
      then show ?thesis using ih by blast
    next
      case False
      then have "load t' dir = load ?t1 dir" using ih by blast
      then show ?thesis using t1 tidy_cong by blast
    qed
    have b: "\<forall>d. d \<notin> set (dir # rest) \<longrightarrow> load t' d = load t d"
      using ih other by auto
    have "fst ` set (markers t') \<subseteq> fst ` set (markers ?t1) \<union> set rest"
      using ih by blast
    then have c: "fst ` set (markers t') \<subseteq> fst ` set (markers t) \<union> set (dir # rest)"
      using keys by (simp only: set_simps) blast
    have a': "\<forall>d \<in> set (dir # rest). tidy pkg outputDir destPaths t' d"
      using a ih by simp
    show ?thesis
      using a' b c by blast
  qed
qed

lemma processFile_skips:
  assumes "inPlace digest pkg outputDir t cand"
  shows "processFile digest opts pkg outputDir cand ch t =
           (Inr (ch\<lparr>skipped := skipped ch @ [outputDir @ fst cand]\<rparr>), t)"
proof -
  obtain existing where d: "disk t (outputDir @ fst cand) = Some existing"
    and h: "digest existing = digest (snd cand)"
    using assms by (auto simp: inPlace_def split: option.splits)
  obtain entries where l: "load t (butlast (outputDir @ fst cand)) = Inr entries"
    and m: "isManaged entries (entryName (outputDir @ fst cand)) (Some (pkgName pkg))"
    using assms
    by (auto simp: inPlace_def managedEntries_def isManaged_filter split: option.splits sum.splits)
  show ?thesis
    using d h l m by (simp add: processFile_def Let_def)
qed

lemma walk_skips:
  assumes "\<forall>cand \<in> set cands. inPlace digest pkg outputDir t cand"
  shows "walk digest opts pkg outputDir cands ch t =
           (Inr (ch\<lparr>skipped := skipped ch @ map (\<lambda>f. outputDir @ fst f) cands\<rparr>), t)"
  using assms
proof (induction cands arbitrary: ch)
  case Nil
  then show ?case by simp
next
  case (Cons cand rest)
  then show ?case
    by (simp add: processFile_skips)
qed

lemma cleanup_noop:
  assumes "\<forall>dir \<in> set dirList. tidy pkg outputDir destPaths t dir"
  shows "cleanup opts pkg outputDir destPaths dirList ch t = (Inr ch, t)"
  using assms
proof (induction dirList)
  case Nil
  then show ?case by simp
next
  case (Cons dir rest)
  show ?case
  proof (cases "prefix outputDir dir")
    case False
    then show ?thesis using Cons by simp
  next
    case True
    then obtain entries where "load t dir = Inr entries"
      "filter (isOrphan pkg destPaths dir) entries = []"
      using Cons.prems by (auto simp: tidy_def split: sum.splits)
    then show ?thesis
      using True Cons by simp
  qed
qed

lemma checkFile_in_place:
  assumes "inPlace digest pkg outputDir t cand"
  shows "checkFile digest pkg outputDir t cand d = Inr d"
proof -
  obtain existing where e: "disk t (outputDir @ fst cand) = Some existing"
    and h: "digest existing = digest (snd cand)"
    using assms by (auto simp: inPlace_def split: option.splits)
  obtain entries where l: "load t (butlast (outputDir @ fst cand)) = Inr entries"
    and m: "isManaged entries (entryName (outputDir @ fst cand)) (Some (pkgName pkg))"
    using assms
    by (auto simp: inPlace_def managedEntries_def isManaged_filter split: option.splits sum.splits)
  show ?thesis
    using e h l m by (simp add: checkFile_def Let_def)
qed

lemma checkFiles_in_place:
  "\<forall>cand \<in> set cands. inPlace digest pkg outputDir t cand \<Longrightarrow>
   checkFiles digest pkg outputDir t cands d = Inr d"
  by (induction cands) (simp_all add: checkFile_in_place)

text \<open>
  One package, extracted for real into a tree: afterwards every candidate file is in place
  and every marker directory is tidy; extracting again changes nothing.
\<close>

lemma extractPackage_settles:
  assumes "extractPackage digest opts pkg outputDir t = (Inr ch, t1)"
    and "\<not> dryRun opts"
    and "distinct (map fst (candidateFiles opts pkg))"
    and "[] \<notin> set (map fst (candidateFiles opts pkg))"
  shows "(\<forall>cand \<in> set (candidateFiles opts pkg). inPlace digest pkg outputDir t1 cand) \<and>
         (\<forall>dir \<in> fst ` set (markers t1).
            tidy pkg outputDir (map (\<lambda>f. outputDir @ fst f) (candidateFiles opts pkg)) t1 dir)"
proof -
  let ?cands = "candidateFiles opts pkg"
  let ?dests = "map (\<lambda>f. outputDir @ fst f) ?cands"
  obtain r3 t3 where w: "walk digest opts pkg outputDir ?cands noChanges t = (r3, t3)"
    by (cases "walk digest opts pkg outputDir ?cands noChanges t")
  then obtain ch3 where r3: "r3 = Inr ch3"
    using assms(1) by (cases r3) (auto simp: extractPackage_def)
  have c: "cleanup opts pkg outputDir ?dests (remdups (map fst (markers t3))) ch3 t3 = (Inr ch, t1)"
    using assms(1) w r3 by (simp add: extractPackage_def)
  have "\<forall>cand \<in> set ?cands. inPlace digest pkg outputDir t3 cand"
    using walk_puts_in_place [OF w [unfolded r3] assms(2,3,4)] .
  then have a: "\<forall>cand \<in> set ?cands. inPlace digest pkg outputDir t1 cand"
    using cleanup_keeps_in_place [OF c assms(4)] by blast
  have s: "set (remdups (map fst (markers t3))) = fst ` set (markers t3)"
    by simp
  from cleanup_tidies [OF c assms(2)]
  have "\<forall>dir \<in> fst ` set (markers t3). tidy pkg outputDir ?dests t1 dir"
    and "fst ` set (markers t1) \<subseteq> fst ` set (markers t3) \<union> fst ` set (markers t3)"
    unfolding s by blast+
  then have b: "\<forall>dir \<in> fst ` set (markers t1). tidy pkg outputDir ?dests t1 dir"
    by blast
  show ?thesis
    using a b by blast
qed

lemma extractPackage_again:
  assumes "\<forall>cand \<in> set (candidateFiles opts pkg). inPlace digest pkg outputDir t1 cand"
    and "\<forall>dir \<in> fst ` set (markers t1).
            tidy pkg outputDir (map (\<lambda>f. outputDir @ fst f) (candidateFiles opts pkg)) t1 dir"
  shows "extractPackage digest opts pkg outputDir t1 =
           (Inr (noChanges\<lparr>skipped := map (\<lambda>f. outputDir @ fst f) (candidateFiles opts pkg)\<rparr>), t1)"
proof -
  have w: "walk digest opts pkg outputDir (candidateFiles opts pkg) noChanges t1 =
      (Inr (noChanges\<lparr>skipped := map (\<lambda>f. outputDir @ fst f) (candidateFiles opts pkg)\<rparr>), t1)"
    using walk_skips [OF assms(1), of opts noChanges] by (simp add: noChanges_def)
  have "\<forall>dir \<in> set (remdups (map fst (markers t1))).
      tidy pkg outputDir (map (\<lambda>f. outputDir @ fst f) (candidateFiles opts pkg)) t1 dir"
    using assms(2) by simp
  from cleanup_noop [OF this]
  show ?thesis
    using w by (simp add: extractPackage_def)
qed

text \<open>
  C2. A call that extracts one installed package for real (no dry run; the candidate files
  have distinct, non-empty paths) and succeeds leaves a tree on which the same call succeeds
  again with nothing added and nothing modified, and leaves the tree as it is; a check of
  that tree, which is the tree after either extraction, reports \<open>ok\<close>.
\<close>

theorem extract_twice_is_idempotent:
  assumes "installed spec = Some pkg"
    and "distinct (map fst (candidateFiles opts pkg))"
    and "[] \<notin> set (map fst (candidateFiles opts pkg))"
    and "\<not> dryRun opts"
    and "extract_op digest installed opts outputDir [spec] t = (Inr res1, t1)"
  shows "\<exists>res2 cr.
           extract_op digest installed opts outputDir [spec] t1 = (Inr res2, t1) \<and>
           added res2 = [] \<and> modified res2 = [] \<and>
           check digest installed opts outputDir [spec] t1 = Inr cr \<and> ok cr"
proof -
  obtain r t' where e: "extractPackage digest opts pkg outputDir t = (r, t')"
    by (cases "extractPackage digest opts pkg outputDir t")
  then obtain ch where r: "r = Inr ch" and t': "t' = t1"
    using assms(1,5) by (cases r) (auto simp: extract_op_def)
  from extractPackage_settles [OF e [unfolded r t'] assms(4,2,3)]
  have inplace: "\<forall>cand \<in> set (candidateFiles opts pkg). inPlace digest pkg outputDir t1 cand"
    and tidy: "\<forall>dir \<in> fst ` set (markers t1).
        tidy pkg outputDir (map (\<lambda>f. outputDir @ fst f) (candidateFiles opts pkg)) t1 dir"
    by blast+
  let ?ch2 = "noChanges\<lparr>skipped := map (\<lambda>f. outputDir @ fst f) (candidateFiles opts pkg)\<rparr>"
  let ?res2 = "\<lparr>added = [], modified = [], deleted = [], skipped = skipped ?ch2,
               sourcePackages = [(pkgName pkg, pkgVersion pkg, ?ch2)]\<rparr>"
  let ?cr = "\<lparr>ok = True, allDifferences = addDifferences noDifferences noDifferences,
             checkedPackages = [(pkgName pkg, pkgVersion pkg, True, noDifferences)]\<rparr>"
  have again: "extractPackage digest opts pkg outputDir t1 = (Inr ?ch2, t1)"
    using extractPackage_again [OF inplace tidy] .
  have x: "extract_op digest installed opts outputDir [spec] t1 = (Inr ?res2, t1)"
    using assms(1) again by (simp add: extract_op_def noChanges_def)
  have "checkPackage digest opts pkg outputDir t1 = Inr noDifferences"
    using checkFiles_in_place [OF inplace] by (simp add: checkPackage_def)
  then have c: "check digest installed opts outputDir [spec] t1 = Inr ?cr"
    using assms(1) by (simp add: check_def inSync_def noDifferences_def)
  have "added ?res2 = []" "modified ?res2 = []" "ok ?cr"
    by simp_all
  then show ?thesis
    using x c by blast
qed

theorem extract_twice_is_idempotent_witness:
  "(\<lambda>spec. if spec = ''test-update-package''
            then Some \<lparr>pkgName = ''test-update-package'', pkgVersion = ''1.0.0'',
                       sourceFiles = [([''docs'', ''guide.md''], ''# Guide v1'')]\<rparr>
            else None) ''test-update-package'' =
     Some \<lparr>pkgName = ''test-update-package'', pkgVersion = ''1.0.0'',
            sourceFiles = [([''docs'', ''guide.md''], ''# Guide v1'')]\<rparr> \<and>
   distinct (map fst (candidateFiles
     \<lparr>allowConflicts = False, dryRun = False, shouldAccept = (\<lambda>p. True)\<rparr>
     \<lparr>pkgName = ''test-update-package'', pkgVersion = ''1.0.0'',
      sourceFiles = [([''docs'', ''guide.md''], ''# Guide v1'')]\<rparr>)) \<and>
   fst (extract_op id
     (\<lambda>spec. if spec = ''test-update-package''
            then Some \<lparr>pkgName = ''test-update-package'', pkgVersion = ''1.0.0'',
                       sourceFiles = [([''docs'', ''guide.md''], ''# Guide v1'')]\<rparr>
            else None)
     \<lparr>allowConflicts = False, dryRun = False, shouldAccept = (\<lambda>p. True)\<rparr>
     [''output''] [''test-update-package'']
     \<lparr>disk = Map.empty, readOnly = {}, markers = []\<rparr>) =
     Inr \<lparr>added = [[''output'', ''docs'', ''guide.md'']], modified = [],
          deleted = [], skipped = [],
          sourcePackages = [(''test-update-package'', ''1.0.0'',
             \<lparr>added = [[''output'', ''docs'', ''guide.md'']], modified = [],
              deleted = [], skipped = []\<rparr>)]\<rparr> \<and>
   (\<exists>res2 cr.
      fst (extract_op id
        (\<lambda>spec. if spec = ''test-update-package''
            then Some \<lparr>pkgName = ''test-update-package'', pkgVersion = ''1.0.0'',
                       sourceFiles = [([''docs'', ''guide.md''], ''# Guide v1'')]\<rparr>
            else None)
        \<lparr>allowConflicts = False, dryRun = False, shouldAccept = (\<lambda>p. True)\<rparr>
        [''output''] [''test-update-package'']
        (snd (extract_op id
          (\<lambda>spec. if spec = ''test-update-package''
            then Some \<lparr>pkgName = ''test-update-package'', pkgVersion = ''1.0.0'',
                       sourceFiles = [([''docs'', ''guide.md''], ''# Guide v1'')]\<rparr>
            else None)
          \<lparr>allowConflicts = False, dryRun = False, shouldAccept = (\<lambda>p. True)\<rparr>
          [''output''] [''test-update-package'']
          \<lparr>disk = Map.empty, readOnly = {}, markers = []\<rparr>))) = Inr res2 \<and>
      added res2 = [] \<and> modified res2 = [] \<and>
      check id
        (\<lambda>spec. if spec = ''test-update-package''
            then Some \<lparr>pkgName = ''test-update-package'', pkgVersion = ''1.0.0'',
                       sourceFiles = [([''docs'', ''guide.md''], ''# Guide v1'')]\<rparr>
            else None)
        \<lparr>allowConflicts = False, dryRun = False, shouldAccept = (\<lambda>p. True)\<rparr>
        [''output''] [''test-update-package'']
        (snd (extract_op id
          (\<lambda>spec. if spec = ''test-update-package''
            then Some \<lparr>pkgName = ''test-update-package'', pkgVersion = ''1.0.0'',
                       sourceFiles = [([''docs'', ''guide.md''], ''# Guide v1'')]\<rparr>
            else None)
          \<lparr>allowConflicts = False, dryRun = False, shouldAccept = (\<lambda>p. True)\<rparr>
          [''output''] [''test-update-package'']
          \<lparr>disk = Map.empty, readOnly = {}, markers = []\<rparr>)) = Inr cr \<and> ok cr)"
proof -
  let ?pkg = "\<lparr>pkgName = ''test-update-package'', pkgVersion = ''1.0.0'',
               sourceFiles = [([''docs'', ''guide.md''], ''# Guide v1'')]\<rparr>"
  let ?installed = "\<lambda>spec. if spec = ''test-update-package'' then Some ?pkg else None"
  let ?opts = "\<lparr>allowConflicts = False, dryRun = False, shouldAccept = (\<lambda>p. True)\<rparr>"
  let ?t = "\<lparr>disk = Map.empty, readOnly = {}, markers = []\<rparr>"
  let ?run = "extract_op id ?installed ?opts [''output''] [''test-update-package''] ?t"
  let ?res1 = "\<lparr>added = [[''output'', ''docs'', ''guide.md'']], modified = [],
          deleted = [], skipped = [],
          sourcePackages = [(''test-update-package'', ''1.0.0'',
             \<lparr>added = [[''output'', ''docs'', ''guide.md'']], modified = [],
              deleted = [], skipped = []\<rparr>)]\<rparr>"
  have h1: "?installed ''test-update-package'' = Some ?pkg"
    by simp
  have c: "candidateFiles ?opts ?pkg = [([''docs'', ''guide.md''], ''# Guide v1'')]"
    by (simp add: candidateFiles_def)
  have h2: "distinct (map fst (candidateFiles ?opts ?pkg))"
    by (simp add: c)
  have h3: "[] \<notin> set (map fst (candidateFiles ?opts ?pkg))"
    by (simp add: c)
  have h4: "\<not> dryRun ?opts"
    by simp
  have f: "fst ?run = Inr ?res1"
    by code_simp
  then have h5: "?run = (Inr ?res1, snd ?run)"
    by (metis prod.collapse)
  from extract_twice_is_idempotent [OF h1 h2 h3 h4 h5]
  obtain res2 cr where
    "extract_op id ?installed ?opts [''output''] [''test-update-package''] (snd ?run) =
       (Inr res2, snd ?run)"
    "added res2 = []" "modified res2 = []"
    "check id ?installed ?opts [''output''] [''test-update-package''] (snd ?run) = Inr cr" "ok cr"
    by blast
  then have "\<exists>res2 cr.
      fst (extract_op id ?installed ?opts [''output''] [''test-update-package''] (snd ?run)) =
        Inr res2 \<and>
      added res2 = [] \<and> modified res2 = [] \<and>
      check id ?installed ?opts [''output''] [''test-update-package''] (snd ?run) = Inr cr \<and> ok cr"
    by (metis fst_conv)
  then show ?thesis
    using h1 h2 f by blast
qed

end
